theory Spec2Isabelle
  imports Main "HOL-Library.AList"
begin

section \<open>Python values used by the bus and the agents\<close>

text \<open>
  Strings are Isabelle strings (byte sequences, UTF-8 for text beyond ASCII). A Python
  dictionary is an association list in insertion order; assignment to a key is
  \<^const>\<open>AList.update\<close>, which overwrites in place or appends, as a Python dict does.
  The free-form payload of a message (\<open>Dict[str, Any]\<close>) holds values of type \<open>pyval\<close>.
\<close>

datatype pyval =
    PNone
  | PStr string
  | PInt int
  | PBool bool
  | PList "pyval list"
  | PDict "(string \<times> pyval) list"

type_synonym content = "(string \<times> pyval) list"

text \<open>An exception value: its class name and the text that \<open>str(e)\<close> gives.\<close>

datatype exn = Exception (exn_class: string) (exn_msg: string)

section \<open>bus/messages.py\<close>

datatype performative = REQUEST | INFORM | PROPOSE | AGREE | FAILURE

record message =
  performative :: performative
  sender :: string
  receiver :: string
  conversation_id :: string
  content_type :: string
  content :: content
  timestamp :: nat

text \<open>
  \<open>Message.create\<close>: the timestamp is the given one, or \<open>datetime.now()\<close> when it is
  \<open>None\<close>; the reading of the clock is the last argument.
\<close>

definition create ::
  "performative \<Rightarrow> string \<Rightarrow> string \<Rightarrow> string \<Rightarrow> string \<Rightarrow> content \<Rightarrow> nat option \<Rightarrow> nat
     \<Rightarrow> message" where
  "create p snd_id rcv_id conv ctype c ts now =
     \<lparr>performative = p, sender = snd_id, receiver = rcv_id, conversation_id = conv,
      content_type = ctype, content = c,
      timestamp = (case ts of None \<Rightarrow> now | Some t \<Rightarrow> t)\<rparr>"

text \<open>
  Python's \<open>a or b\<close> on an optional string: \<open>b\<close> when \<open>a\<close> is \<open>None\<close> or the empty
  string (both are falsy), \<open>a\<close> otherwise.
\<close>

definition str_or :: "string option \<Rightarrow> string \<Rightarrow> string" where
  "str_or a b = (case a of None \<Rightarrow> b | Some s \<Rightarrow> if s = [] then b else s)"

text \<open>
  \<open>Message.reply\<close>: \<open>sender or self.receiver\<close>, \<open>self.sender\<close>, \<open>self.conversation_id\<close>
  and the caller's performative, content type and content; no timestamp is passed on, so
  \<open>create\<close> reads the clock. The method assigns to no field of \<open>self\<close>.
\<close>

definition reply ::
  "message \<Rightarrow> performative \<Rightarrow> string \<Rightarrow> content \<Rightarrow> string option \<Rightarrow> nat \<Rightarrow> message" where
  "reply self p ctype c sender_override now =
     create p (str_or sender_override (receiver self)) (sender self) (conversation_id self)
       ctype c None now"

section \<open>bus/router.py\<close>

text \<open>
  An inbox is an \<open>asyncio.Queue\<close> object: the queued messages, oldest first, and whether
  the queue has been shut down. \<open>put\<close> on a queue that was shut down raises
  \<open>QueueShutDown\<close>; the agents create their queues unbounded, so \<open>put\<close> never waits.
  Queue objects live in a store addressed by reference, since the router and the owning
  agent hold the same object and two names may be registered with one queue.
\<close>

record inbox =
  items :: "message list"
  is_shutdown :: bool

definition put :: "inbox \<Rightarrow> message \<Rightarrow> exn + inbox" where
  "put q m = (if is_shutdown q then Inl (Exception ''QueueShutDown'' [])
              else Inr (q\<lparr>items := items q @ [m]\<rparr>))"

text \<open>
  The state shared by the agents of one process: the router's \<open>_agents\<close> dictionary
  (agent name to queue reference), the queue objects, the \<open>_running\<close> flag of each agent
  and the clock. Reading the clock does not change it; time passes through the steps
  that change \<open>clock\<close>, those of a handler or of the environment, so the timestamps of two
  messages are equal only when no such step lies between them.
\<close>

record world =
  agents :: "string \<rightharpoonup> nat"
  queues :: "nat \<Rightarrow> inbox"
  running :: "string \<Rightarrow> bool"
  clock :: nat

definition register_agent :: "string \<Rightarrow> nat \<Rightarrow> world \<Rightarrow> world" where
  "register_agent nm q w = w\<lparr>agents := (agents w)(nm \<mapsto> q)\<rparr>"

definition unregister_agent :: "string \<Rightarrow> world \<Rightarrow> world" where
  "unregister_agent nm w =
     (if nm \<in> dom (agents w) then w\<lparr>agents := (agents w)(nm := None)\<rparr> else w)"

definition is_agent_registered :: "string \<Rightarrow> world \<Rightarrow> bool" where
  "is_agent_registered nm w = (nm \<in> dom (agents w))"

text \<open>
  \<open>Router.route\<close>: \<open>False\<close> when \<open>_agents.get(message.receiver)\<close> is \<open>None\<close>; otherwise
  \<open>put\<close> on that queue, \<open>True\<close> when it succeeds and \<open>False\<close> from the \<open>except\<close> branch
  when it raises.
\<close>

definition route :: "message \<Rightarrow> world \<Rightarrow> bool \<times> world" where
  "route m w =
     (case agents w (receiver m) of
        None \<Rightarrow> (False, w)
      | Some q \<Rightarrow>
          (case put (queues w q) m of
             Inr q' \<Rightarrow> (True, w\<lparr>queues := (queues w)(q := q')\<rparr>)
           | Inl e \<Rightarrow> (False, w)))"

section \<open>agents/base.py\<close>

text \<open>
  A handler is a coroutine that receives the message, may act on the shared state (send
  further messages, stop an agent) and either returns or raises. Only exceptions derived
  from \<open>Exception\<close> are values of \<open>exn\<close>; those are the ones the \<open>except Exception\<close>
  clauses of the source catch.
\<close>

type_synonym handler = "message \<Rightarrow> world \<Rightarrow> (exn + unit) \<times> world"

record agent =
  name :: string
  inbox_ref :: nat
  handlers :: "string \<rightharpoonup> handler"

text \<open>\<open>BaseAgent.on\<close>: the last handler registered for a content type replaces the others.\<close>

definition on :: "string \<Rightarrow> handler \<Rightarrow> agent \<Rightarrow> agent" where
  "on ctype h ag = ag\<lparr>handlers := (handlers ag)(ctype \<mapsto> h)\<rparr>"

text \<open>\<open>BaseAgent.reply\<close>: builds the reply with \<open>sender=self.name\<close> and routes it.\<close>

definition agent_reply ::
  "agent \<Rightarrow> message \<Rightarrow> performative \<Rightarrow> string \<Rightarrow> content \<Rightarrow> world \<Rightarrow> bool \<times> world" where
  "agent_reply ag original p ctype c w =
     route (reply original p ctype c (Some (name ag)) (clock w)) w"

text \<open>
  \<open>BaseAgent.handle_message\<close>: the handler registered for the content type runs inside
  \<open>try\<close>; when it raises, the \<open>except\<close> branch replies with a FAILURE of content type
  \<open>error\<close>. With no handler the message is logged and dropped.
\<close>

definition handle_message :: "agent \<Rightarrow> message \<Rightarrow> world \<Rightarrow> (exn + unit) \<times> world" where
  "handle_message ag m w =
     (case handlers ag (content_type m) of
        Some h \<Rightarrow>
          (case h m w of
             (Inr u, w') \<Rightarrow> (Inr (), w')
           | (Inl e, w') \<Rightarrow>
               (Inr (),
                snd (agent_reply ag m FAILURE ''error''
                       [(''error'', PStr (exn_msg e)),
                        (''original_content_type'', PStr (content_type m))] w')))
      | None \<Rightarrow> (Inr (), w))"

text \<open>
  \<open>inbox.get()\<close> under \<open>wait_for\<close>: the oldest message leaves the queue; on an empty
  queue the wait ends in \<open>TimeoutError\<close> (or \<open>QueueShutDown\<close>), here \<open>None\<close>.
\<close>

definition inbox_get :: "nat \<Rightarrow> world \<Rightarrow> (message \<times> world) option" where
  "inbox_get q w =
     (case items (queues w q) of
        [] \<Rightarrow> None
      | m # rest \<Rightarrow> Some (m, w\<lparr>queues := (queues w)(q := (queues w q)\<lparr>items := rest\<rparr>)\<rparr>))"

text \<open>
  One pass through the body of the \<open>while\<close> loop of \<open>BaseAgent.run\<close>: on a timeout the
  loop continues; an exception out of \<open>handle_message\<close> is logged and the loop continues.
\<close>

definition run_iteration :: "agent \<Rightarrow> world \<Rightarrow> world" where
  "run_iteration ag w =
     (case inbox_get (inbox_ref ag) w of
        None \<Rightarrow> w
      | Some (m, w1) \<Rightarrow>
          (case handle_message ag m w1 of
             (Inr u, w2) \<Rightarrow> w2
           | (Inl e, w2) \<Rightarrow> w2))"

text \<open>
  The loop \<open>while self._running\<close>, which may go on for ever, with a bound on the number of
  passes: after that many passes, or as soon as the flag is down, the state reached.
\<close>

fun run_loop :: "nat \<Rightarrow> agent \<Rightarrow> world \<Rightarrow> world" where
  "run_loop 0 ag w = w"
| "run_loop (Suc k) ag w =
     (if running w (name ag) then run_loop k ag (run_iteration ag w) else w)"

definition run :: "nat \<Rightarrow> agent \<Rightarrow> world \<Rightarrow> world" where
  "run k ag w = run_loop k ag (w\<lparr>running := (running w)(name ag := True)\<rparr>)"

definition stop :: "agent \<Rightarrow> world \<Rightarrow> world" where
  "stop ag w = w\<lparr>running := (running w)(name ag := False)\<rparr>"

definition shutdown :: "agent \<Rightarrow> world \<Rightarrow> world" where
  "shutdown ag w = unregister_agent (name ag) (stop ag w)"

section \<open>Python string operations\<close>

text \<open>
  The operations of \<open>str\<close> that the translator uses, on byte strings. Case folding and
  the classes of whitespace and word characters are those of ASCII; every byte of a
  character beyond ASCII counts as a word character and is left alone by \<open>lower\<close>.
\<close>

definition startswith :: "string \<Rightarrow> string \<Rightarrow> bool" where
  "startswith s pre = (take (length pre) s = pre)"

definition endswith :: "string \<Rightarrow> string \<Rightarrow> bool" where
  "endswith s suf = (length suf \<le> length s \<and> drop (length s - length suf) s = suf)"

text \<open>\<open>sub in s\<close> on strings: \<open>sub\<close> occurs in \<open>s\<close> as a contiguous piece.\<close>

fun str_in :: "string \<Rightarrow> string \<Rightarrow> bool" where
  "str_in sub [] = (sub = [])"
| "str_in sub (c # cs) = (startswith (c # cs) sub \<or> str_in sub cs)"

definition lower_char :: "char \<Rightarrow> char" where
  "lower_char c = (let n = (of_char c :: nat) in if 65 \<le> n \<and> n \<le> 90 then char_of (n + 32) else c)"

definition lower :: "string \<Rightarrow> string" where
  "lower s = map lower_char s"

definition is_space :: "char \<Rightarrow> bool" where
  "is_space c = (let n = (of_char c :: nat) in (9 \<le> n \<and> n \<le> 13) \<or> (28 \<le> n \<and> n \<le> 32))"

definition is_word_char :: "char \<Rightarrow> bool" where
  "is_word_char c =
     (let n = (of_char c :: nat) in
        (48 \<le> n \<and> n \<le> 57) \<or> (65 \<le> n \<and> n \<le> 90) \<or> n = 95 \<or> (97 \<le> n \<and> n \<le> 122) \<or> 128 \<le> n)"

text \<open>
  The maximal runs of characters that satisfy \<open>keep\<close>, left to right; the first argument
  is the run being read.
\<close>

fun runs :: "(char \<Rightarrow> bool) \<Rightarrow> string \<Rightarrow> string \<Rightarrow> string list" where
  "runs keep cur [] = (if cur = [] then [] else [cur])"
| "runs keep cur (c # cs) =
     (if keep c then runs keep (cur @ [c]) cs
      else (if cur = [] then [] else [cur]) @ runs keep [] cs)"

text \<open>\<open>s.split()\<close>: the words between runs of whitespace.\<close>

definition split :: "string \<Rightarrow> string list" where
  "split s = runs (\<lambda>c. \<not> is_space c) [] s"

text \<open>\<open>re.findall(r'\w+', s)\<close>.\<close>

definition findall_words :: "string \<Rightarrow> string list" where
  "findall_words s = runs is_word_char [] s"

fun join :: "string \<Rightarrow> string list \<Rightarrow> string" where
  "join sep [] = []"
| "join sep [x] = x"
| "join sep (x # y # ys) = x @ sep @ join sep (y # ys)"

text \<open>Decimal digits of a number, as \<open>str(n)\<close> and an f-string give them.\<close>

fun str_nat :: "nat \<Rightarrow> string" where
  "str_nat n =
     (if n < 10 then [''0123456789'' ! n]
      else str_nat (n div 10) @ [''0123456789'' ! (n mod 10)])"

declare str_nat.simps [simp del]

text \<open>
  \<open>sep.join(xs)\<close> on a list that may hold \<open>None\<close>: \<open>TypeError\<close> at the first item that is
  not a string.
\<close>

definition join_optional :: "string \<Rightarrow> string option list \<Rightarrow> exn + string" where
  "join_optional sep xs =
     (case those xs of
        Some ys \<Rightarrow> Inr (join sep ys)
      | None \<Rightarrow>
          Inl (Exception ''TypeError''
                 (''sequence item '' @ str_nat (length (takeWhile (\<lambda>x. x \<noteq> None) xs))
                  @ '': expected str instance, NoneType found'')))"

section \<open>agents/models.py and db/models.py\<close>

datatype scope = building | district

definition scope_str :: "scope \<Rightarrow> string" where
  "scope_str s = (case s of building \<Rightarrow> ''building'' | district \<Rightarrow> ''district'')"

record task =
  intent :: string
  scope :: "scope option"
  inputs :: "(string \<times> string) list"
  constraints :: "(string \<times> string) list"
  raw_text :: string

record plan_step =
  script_id :: string
  args :: "(string \<times> string) list"

record plan =
  plan :: "plan_step list"
  explain :: string
  assumptions :: "string list"
  missing :: "string list"

text \<open>
  Of a script, a workflow step and a workflow, the fields that the translator reads or
  sends; the step's \<open>description\<close> is optional in the source and \<open>None\<close> by default.
\<close>

record script_input =
  si_name :: string
  si_type :: string
  si_required :: bool

record script =
  sc_id :: "string option"
  sc_name :: string
  sc_inputs :: "script_input list"

record workflow_step =
  ws_script_id :: string
  ws_action :: string
  ws_description :: "string option"

record workflow =
  wf_id :: "string option"
  wf_name :: string
  wf_steps :: "workflow_step list"
  wf_tags :: "string list"

text \<open>
  \<open>Task.from_dict\<close>, that is \<open>Task(**data)\<close> under pydantic: \<open>intent\<close> and \<open>raw_text\<close>
  are required strings, \<open>scope\<close> is absent, \<open>None\<close> or one of the two literals,
  \<open>inputs\<close> and \<open>constraints\<close> are absent or dictionaries of strings; other keys are
  ignored. Anything else raises \<open>ValidationError\<close>, whose long text is cut short here.
\<close>

definition validation_error :: exn where
  "validation_error = Exception ''ValidationError'' ''validation error for Task''"

definition str_field :: "content \<Rightarrow> string \<Rightarrow> exn + string" where
  "str_field c k = (case map_of c k of Some (PStr s) \<Rightarrow> Inr s | _ \<Rightarrow> Inl validation_error)"

definition scope_field :: "content \<Rightarrow> exn + scope option" where
  "scope_field c =
     (case map_of c ''scope'' of
        None \<Rightarrow> Inr None
      | Some PNone \<Rightarrow> Inr None
      | Some (PStr s) \<Rightarrow>
          (if s = ''building'' then Inr (Some building)
           else if s = ''district'' then Inr (Some district)
           else Inl validation_error)
      | Some _ \<Rightarrow> Inl validation_error)"

definition str_of_pyval :: "pyval \<Rightarrow> string option" where
  "str_of_pyval v = (case v of PStr s \<Rightarrow> Some s | _ \<Rightarrow> None)"

definition dict_field :: "content \<Rightarrow> string \<Rightarrow> exn + (string \<times> string) list" where
  "dict_field c k =
     (case map_of c k of
        None \<Rightarrow> Inr []
      | Some (PDict d) \<Rightarrow>
          (case those (map (\<lambda>(k', v). map_option (Pair k') (str_of_pyval v)) d) of
             Some kvs \<Rightarrow> Inr kvs
           | None \<Rightarrow> Inl validation_error)
      | Some _ \<Rightarrow> Inl validation_error)"

definition from_dict :: "content \<Rightarrow> exn + task" where
  "from_dict c =
     (case str_field c ''intent'' of Inl e \<Rightarrow> Inl e | Inr i \<Rightarrow>
      case scope_field c of Inl e \<Rightarrow> Inl e | Inr sc \<Rightarrow>
      case dict_field c ''inputs'' of Inl e \<Rightarrow> Inl e | Inr ins \<Rightarrow>
      case dict_field c ''constraints'' of Inl e \<Rightarrow> Inl e | Inr cs \<Rightarrow>
      case str_field c ''raw_text'' of Inl e \<Rightarrow> Inl e | Inr rt \<Rightarrow>
        Inr \<lparr>intent = i, scope = sc, inputs = ins, constraints = cs, raw_text = rt\<rparr>)"

text \<open>\<open>to_dict\<close> (pydantic's \<open>model_dump\<close>) of a plan step and of a plan.\<close>

definition str_dict :: "(string \<times> string) list \<Rightarrow> pyval" where
  "str_dict d = PDict (map (\<lambda>(k, v). (k, PStr v)) d)"

definition plan_step_to_dict :: "plan_step \<Rightarrow> pyval" where
  "plan_step_to_dict st = PDict [(''script_id'', PStr (script_id st)), (''args'', str_dict (args st))]"

definition plan_to_dict :: "plan \<Rightarrow> pyval" where
  "plan_to_dict pl =
     PDict [(''plan'', PList (map plan_step_to_dict (plan pl))),
            (''explain'', PStr (explain pl)),
            (''assumptions'', PList (map PStr (assumptions pl))),
            (''missing'', PList (map PStr (missing pl)))]"

section \<open>agents/capabilities.py\<close>

text \<open>
  What the translator sees of a capabilities provider during one resolution: the list
  that \<open>get_all_workflows\<close> returns, in its order, and the answer of
  \<open>get_script_by_id\<close> to each id.
\<close>

record provider =
  get_all_workflows :: "workflow list"
  get_script_by_id :: "string \<Rightarrow> script option"

section \<open>agents/translator.py\<close>

text \<open>
  \<open>_extract_task_tags\<close>: the tags in the order in which the source adds them to the set;
  the function returns the set.
\<close>

definition extension_tags :: "string \<Rightarrow> string list" where
  "extension_tags input_file =
     (if endswith input_file ''.geojson'' then [''geometry'']
      else if endswith input_file ''.epw'' then [''weather'']
      else if endswith input_file ''.csv'' then [''data'']
      else if endswith input_file ''.xlsx'' then [''schedule'']
      else [])"

definition task_tag_list :: "task \<Rightarrow> string list" where
  "task_tag_list t =
     findall_words (lower (intent t))
     @ (case scope t of None \<Rightarrow> [] | Some sc \<Rightarrow> [scope_str sc])
     @ filter (\<lambda>input_type. input_type \<in> set [''geometry'', ''weather'', ''schedule'', ''data'', ''config''])
         (map fst (inputs t))
     @ concat (map extension_tags (map snd (inputs t)))
     @ filter (\<lambda>constraint_type. constraint_type \<in> set [''algorithm'', ''timestep'', ''temperature''])
         (map fst (constraints t))"

definition extract_task_tags :: "task \<Rightarrow> string set" where
  "extract_task_tags t = set (task_tag_list t)"

text \<open>\<open>_get_candidate_workflows\<close>: the workflows whose tags meet the task's, in the provider's order.\<close>

definition get_candidate_workflows :: "provider \<Rightarrow> task \<Rightarrow> workflow list" where
  "get_candidate_workflows p t =
     filter (\<lambda>wfl. extract_task_tags t \<inter> set (wf_tags wfl) \<noteq> {}) (get_all_workflows p)"

text \<open>\<open>_calculate_workflow_score\<close>.\<close>

definition calculate_workflow_score :: "task \<Rightarrow> workflow \<Rightarrow> nat" where
  "calculate_workflow_score t wfl =
     (let overlap_score = card (extract_task_tags t \<inter> set (wf_tags wfl));
          intent_bonus =
            (if str_in (intent t) (wf_name wfl)
                \<or> list_ex (\<lambda>word. str_in word (wf_name wfl)) (split (intent t))
             then 5 else 0);
          scope_bonus =
            (case scope t of
               None \<Rightarrow> 0
             | Some sc \<Rightarrow> if scope_str sc \<in> set (wf_tags wfl) then 2 else 0)
      in overlap_score + intent_bonus + scope_bonus)"

text \<open>
  The loop of \<open>_find_best_workflow\<close> over the candidates, on the pair
  \<open>(best_workflow, best_score)\<close>, and the function itself.
\<close>

fun best_loop :: "task \<Rightarrow> workflow list \<Rightarrow> workflow option \<times> nat \<Rightarrow> workflow option \<times> nat" where
  "best_loop t [] best = best"
| "best_loop t (wfl # wfls) (best_workflow, best_score) =
     (let score = calculate_workflow_score t wfl
      in if score > best_score then best_loop t wfls (Some wfl, score)
         else best_loop t wfls (best_workflow, best_score))"

definition find_best_workflow :: "provider \<Rightarrow> task \<Rightarrow> workflow option" where
  "find_best_workflow p t =
     (let candidate_workflows = get_candidate_workflows p t
      in if candidate_workflows = [] then None
         else fst (best_loop t candidate_workflows (None, 0)))"

text \<open>\<open>_map_task_inputs_to_script_args\<close>: one pass of each of its two loops, and the function.\<close>

definition map_file_input :: "string \<times> string \<Rightarrow> (string \<times> string) list \<Rightarrow> (string \<times> string) list" where
  "map_file_input kv a =
     (case kv of (task_input_key, task_input_value) \<Rightarrow>
        if task_input_key = ''geometry'' \<or> endswith task_input_value ''.geojson''
          then AList.update ''buildings'' task_input_value a
        else if task_input_key = ''weather'' \<or> endswith task_input_value ''.epw''
          then AList.update ''weather_file'' task_input_value a
        else if task_input_key = ''schedule'' \<or> endswith task_input_value ''.xlsx''
          then AList.update ''occupancy_schedules'' task_input_value a
        else if task_input_key = ''data'' \<or> endswith task_input_value ''.csv''
          then AList.update ''energy_demands'' task_input_value a
        else a)"

definition map_constraint :: "string \<times> string \<Rightarrow> (string \<times> string) list \<Rightarrow> (string \<times> string) list" where
  "map_constraint kv a =
     (case kv of (constraint_key, constraint_value) \<Rightarrow>
        if constraint_key = ''algorithm'' then AList.update ''algorithm'' constraint_value a
        else if constraint_key = ''timestep'' then AList.update ''timestep'' constraint_value a
        else a)"

definition map_task_inputs_to_script_args :: "task \<Rightarrow> script \<Rightarrow> (string \<times> string) list" where
  "map_task_inputs_to_script_args t sc =
     (let a1 = fold map_file_input (inputs t) [];
          a2 = fold map_constraint (constraints t) a1
      in if list_ex (\<lambda>inp. si_name inp = ''scenario_config'') (sc_inputs sc)
         then AList.update ''scenario_config'' ''scenario.yml'' a2
         else a2)"

text \<open>
  \<open>_generate_explanation\<close>. The available inputs are a Python set; the order in which
  \<open>join\<close> reads a set depends on the string hashes of the running process, so it is an
  argument: \<open>hord\<close> maps the elements, in the order of their insertion, to the order of
  iteration. Joining the step descriptions raises when one of them is \<open>None\<close>.
\<close>

definition generate_explanation ::
  "(string list \<Rightarrow> string list) \<Rightarrow> task \<Rightarrow> workflow \<Rightarrow> string list \<Rightarrow> string list \<Rightarrow> exn + string" where
  "generate_explanation hord t wfl available_inputs missing_inputs =
     (let e1 = ''Selected workflow '' @ [CHR 0x27] @ wf_name wfl @ [CHR 0x27]
               @ '' because it matches your intent to '' @ intent t @ ''.'';
          e2 = (case scope t of
                  None \<Rightarrow> e1
                | Some sc \<Rightarrow> e1 @ '' This workflow is suitable for '' @ scope_str sc @ ''-level analysis.'');
          e3 = e2 @ '' The workflow consists of '' @ str_nat (length (wf_steps wfl)) @ '' steps: ''
      in case join_optional '', '' (map ws_description (wf_steps wfl)) of
           Inl e \<Rightarrow> Inl e
         | Inr descriptions \<Rightarrow>
             (let e4 = e3 @ descriptions @ ''.'';
                  e5 = (if available_inputs \<noteq> []
                        then e4 @ '' Available inputs: '' @ join '', '' (hord available_inputs) @ ''.''
                        else e4);
                  e6 = (if missing_inputs \<noteq> []
                        then e5 @ '' Missing required inputs: '' @ join '', '' missing_inputs @ ''.''
                        else e5)
              in Inr e6))"

text \<open>\<open>_generate_assumptions\<close>.\<close>

definition generate_assumptions :: "task \<Rightarrow> workflow \<Rightarrow> string list" where
  "generate_assumptions t wfl =
     [''Using default building schedules if not provided'',
      ''Standard thermal model parameters unless specified'']
     @ (if scope t = Some district then [''All buildings in district have similar characteristics'']
        else if scope t = Some building then [''Single building analysis with typical occupancy patterns'']
        else [])
     @ (if str_in ''cooling'' (intent t) then [''Focusing on cooling loads and systems''] else [])
     @ (if list_ex (\<lambda>st. str_in ''optimization'' (ws_action st)) (wf_steps wfl)
        then [''Using default optimization objectives unless specified''] else [])"

text \<open>
  \<open>_compute_plan\<close>, in the order of the source: the dictionary of the scripts that the
  provider resolves, the dictionary of required inputs, the three checks, the steps,
  the explanation and the assumptions.
\<close>

definition resolve_scripts :: "provider \<Rightarrow> workflow \<Rightarrow> (string \<times> script) list" where
  "resolve_scripts p wfl =
     fold (\<lambda>sid scripts.
             case get_script_by_id p sid of
               Some sc \<Rightarrow> AList.update sid sc scripts
             | None \<Rightarrow> scripts)
       (map ws_script_id (wf_steps wfl)) []"

definition required_inputs :: "(string \<times> script) list \<Rightarrow> (string \<times> string) list" where
  "required_inputs scripts =
     fold (\<lambda>sc req.
             fold (\<lambda>inp req'. if si_required inp then AList.update (si_name inp) (si_type inp) req' else req')
               (sc_inputs sc) req)
       (map snd scripts) []"

definition check_weather :: "string list \<Rightarrow> task \<Rightarrow> string list \<times> string list \<Rightarrow> string list \<times> string list" where
  "check_weather req t am =
     (case am of (available_inputs, missing_inputs) \<Rightarrow>
        if ''weather_file'' \<in> set req \<or> list_ex (\<lambda>r. str_in ''weather'' (lower r)) req
        then (if list_ex (\<lambda>inp. endswith inp ''.epw'') (map snd (inputs t))
                 \<or> ''weather'' \<in> set (map fst (inputs t))
              then (available_inputs @ [''weather_epw''], missing_inputs)
              else (available_inputs, missing_inputs @ [''weather_epw'']))
        else (available_inputs, missing_inputs))"

definition check_geometry :: "string list \<Rightarrow> task \<Rightarrow> string list \<times> string list \<Rightarrow> string list \<times> string list" where
  "check_geometry req t am =
     (case am of (available_inputs, missing_inputs) \<Rightarrow>
        if ''buildings'' \<in> set req \<or> list_ex (\<lambda>r. str_in ''geometry'' (lower r)) req
        then (if list_ex (\<lambda>inp. endswith inp ''.geojson'') (map snd (inputs t))
                 \<or> ''geometry'' \<in> set (map fst (inputs t))
              then (available_inputs @ [''geometry''], missing_inputs)
              else (available_inputs, missing_inputs @ [''geometry'']))
        else (available_inputs, missing_inputs))"

definition check_scenario_config :: "string list \<Rightarrow> string list \<times> string list \<Rightarrow> string list \<times> string list" where
  "check_scenario_config req am =
     (case am of (available_inputs, missing_inputs) \<Rightarrow>
        if ''scenario_config'' \<in> set req
        then (if available_inputs \<noteq> []
              then (available_inputs @ [''scenario_config''], missing_inputs)
              else (available_inputs, missing_inputs @ [''scenario_config'']))
        else (available_inputs, missing_inputs))"

definition check_inputs :: "(string \<times> string) list \<Rightarrow> task \<Rightarrow> string list \<times> string list" where
  "check_inputs required t =
     check_scenario_config (map fst required)
       (check_geometry (map fst required) t
          (check_weather (map fst required) t ([], [])))"

definition make_plan_steps :: "(string \<times> script) list \<Rightarrow> task \<Rightarrow> workflow \<Rightarrow> plan_step list" where
  "make_plan_steps scripts t wfl =
     concat (map (\<lambda>st. case map_of scripts (ws_script_id st) of
                          Some sc \<Rightarrow> [\<lparr>script_id = ws_script_id st,
                                       args = map_task_inputs_to_script_args t sc\<rparr>]
                        | None \<Rightarrow> [])
               (wf_steps wfl))"

definition compute_plan ::
  "(string list \<Rightarrow> string list) \<Rightarrow> provider \<Rightarrow> task \<Rightarrow> workflow \<Rightarrow> exn + plan" where
  "compute_plan hord p t wfl =
     (let scripts = resolve_scripts p wfl;
          required = required_inputs scripts;
          am = check_inputs required t;
          plan_steps = make_plan_steps scripts t wfl
      in case generate_explanation hord t wfl (fst am) (snd am) of
           Inl e \<Rightarrow> Inl e
         | Inr explanation \<Rightarrow>
             Inr \<lparr>plan = plan_steps, explain = explanation,
                  assumptions = generate_assumptions t wfl, missing = snd am\<rparr>)"

text \<open>
  The handler of content type \<open>task\<close>. What the \<open>try\<close> block computes before its call
  of \<open>reply\<close> is the triple of performative, content type and content; an exception
  raised on the way is answered from the \<open>except\<close> branch.
\<close>

definition task_answer ::
  "(string list \<Rightarrow> string list) \<Rightarrow> provider \<Rightarrow> content \<Rightarrow> exn + performative \<times> string \<times> content" where
  "task_answer hord p c =
     (case from_dict c of
        Inl e \<Rightarrow> Inl e
      | Inr t \<Rightarrow>
          (case find_best_workflow p t of
             None \<Rightarrow>
               Inr (FAILURE, ''error'',
                    [(''error'', PStr (''No workflow found for intent: '' @ intent t))])
           | Some best_workflow \<Rightarrow>
               (case compute_plan hord p t best_workflow of
                  Inl e \<Rightarrow> Inl e
                | Inr pl \<Rightarrow>
                    if missing pl \<noteq> []
                    then Inr (FAILURE, ''plan'',
                              [(''reason'', PStr (''Missing required inputs: '' @ join '', '' (missing pl))),
                               (''missing'', PList (map PStr (missing pl))),
                               (''plan'', plan_to_dict pl)])
                    else Inr (INFORM, ''plan'',
                              [(''plan'', plan_to_dict pl),
                               (''workflow_id'', (case wf_id best_workflow of None \<Rightarrow> PNone | Some i \<Rightarrow> PStr i)),
                               (''workflow_name'', PStr (wf_name best_workflow))]))))"

definition task_reply ::
  "(string list \<Rightarrow> string list) \<Rightarrow> provider \<Rightarrow> message \<Rightarrow> performative \<times> string \<times> content" where
  "task_reply hord p m =
     (case task_answer hord p (content m) of
        Inr r \<Rightarrow> r
      | Inl e \<Rightarrow>
          (FAILURE, ''error'', [(''error'', PStr (''Failed to process task: '' @ exn_msg e))]))"

definition handle_task :: "(string list \<Rightarrow> string list) \<Rightarrow> provider \<Rightarrow> agent \<Rightarrow> handler" where
  "handle_task hord p ag m w =
     (case task_reply hord p m of
        (pf, ctype, c) \<Rightarrow> (Inr (), snd (agent_reply ag m pf ctype c w)))"

section \<open>The lookup table of the argument mapping\<close>

text \<open>
  The argument that a task input is mapped to: the rows of the table in the order of the
  \<open>if\<close>/\<open>elif\<close> chain, the first row that matches; likewise for a constraint. The value
  that reaches an argument is the one of the last entry mapped to it.
\<close>

definition file_arg :: "string \<times> string \<Rightarrow> string option" where
  "file_arg kv =
     (case kv of (k, v) \<Rightarrow>
        if k = ''geometry'' \<or> endswith v ''.geojson'' then Some ''buildings''
        else if k = ''weather'' \<or> endswith v ''.epw'' then Some ''weather_file''
        else if k = ''schedule'' \<or> endswith v ''.xlsx'' then Some ''occupancy_schedules''
        else if k = ''data'' \<or> endswith v ''.csv'' then Some ''energy_demands''
        else None)"

definition constraint_arg :: "string \<times> string \<Rightarrow> string option" where
  "constraint_arg kv =
     (case kv of (k, v) \<Rightarrow>
        if k = ''algorithm'' then Some ''algorithm''
        else if k = ''timestep'' then Some ''timestep''
        else None)"

definition last_mapped ::
  "(string \<times> string \<Rightarrow> string option) \<Rightarrow> string \<Rightarrow> (string \<times> string) list \<Rightarrow> string option" where
  "last_mapped f x kvs =
     (case filter (\<lambda>kv. f kv = Some x) kvs of
        [] \<Rightarrow> None
      | y # ys \<Rightarrow> Some (snd (last (y # ys))))"

section \<open>Concrete instances\<close>

text \<open>
  A message used in the concrete instances below: a request from \<open>alice\<close> to \<open>bob\<close>.
\<close>

definition msg0 :: message where
  "msg0 = \<lparr>performative = REQUEST, sender = ''alice'', receiver = ''bob'',
           conversation_id = ''conv-1'', content_type = ''ping'',
           content = [(''n'', PInt 1)], timestamp = 7\<rparr>"

text \<open>
  Two states used in the concrete instances: \<open>bob\<close> registered with queue 0 and \<open>alice\<close>
  with queue 1, all queues empty; in the second one the queues have been shut down.
\<close>

definition world0 :: world where
  "world0 = \<lparr>agents = [''bob'' \<mapsto> 0, ''alice'' \<mapsto> 1],
             queues = (\<lambda>q. \<lparr>items = [], is_shutdown = False\<rparr>),
             running = (\<lambda>a. False), clock = 9\<rparr>"

definition world_shut :: world where
  "world_shut = \<lparr>agents = [''bob'' \<mapsto> 0, ''alice'' \<mapsto> 1],
                 queues = (\<lambda>q. \<lparr>items = [], is_shutdown = True\<rparr>),
                 running = (\<lambda>a. False), clock = 9\<rparr>"

text \<open>
  An agent \<open>bob\<close> whose handler for \<open>ping\<close> raises, and a state in which his inbox holds
  \<open>msg0\<close> followed by a message of a content type he has no handler for.
\<close>

definition boom :: handler where
  "boom m w = (Inl (Exception ''ValueError'' ''boom''), w)"

definition bob :: agent where
  "bob = \<lparr>name = ''bob'', inbox_ref = 0, handlers = [''ping'' \<mapsto> boom]\<rparr>"

definition world1 :: world where
  "world1 = \<lparr>agents = [''bob'' \<mapsto> 0, ''alice'' \<mapsto> 1],
             queues = (\<lambda>q. \<lparr>items = (if q = 0 then [msg0, msg0\<lparr>content_type := ''other''\<rparr>] else []),
                            is_shutdown = False\<rparr>),
             running = (\<lambda>a. a = ''bob''), clock = 9\<rparr>"

text \<open>
  A provider with two workflows. The script of the first declares a required weather file,
  required buildings and a scenario configuration; the script that the second refers to
  is unknown to the provider.
\<close>

definition script1 :: script where
  "script1 = \<lparr>sc_id = Some ''script-001'', sc_name = ''demand_calculation'',
              sc_inputs = [\<lparr>si_name = ''weather_file'', si_type = ''epw'', si_required = True\<rparr>,
                           \<lparr>si_name = ''buildings'', si_type = ''shapefile'', si_required = True\<rparr>,
                           \<lparr>si_name = ''scenario_config'', si_type = ''yml'', si_required = False\<rparr>]\<rparr>"

definition wf_cooling :: workflow where
  "wf_cooling = \<lparr>wf_id = Some ''workflow-001'', wf_name = ''estimate_cooling_demand'',
                 wf_steps = [\<lparr>ws_script_id = ''script-001'', ws_action = ''calculate_cooling_loads'',
                              ws_description = Some ''Calculate cooling loads''\<rparr>,
                             \<lparr>ws_script_id = ''script-404'', ws_action = ''generate_report'',
                              ws_description = Some ''Generate report''\<rparr>],
                 wf_tags = [''cooling'', ''demand'', ''thermal'']\<rparr>"

definition wf_network :: workflow where
  "wf_network = \<lparr>wf_id = Some ''workflow-002'', wf_name = ''design_network'',
                 wf_steps = [\<lparr>ws_script_id = ''script-404'', ws_action = ''network_optimization'',
                              ws_description = Some ''Lay out pipes''\<rparr>],
                 wf_tags = [''network'', ''pipes'', ''district'']\<rparr>"

definition provider0 :: provider where
  "provider0 = \<lparr>get_all_workflows = [wf_network, wf_cooling],
                get_script_by_id = map_of [(''script-001'', script1)]\<rparr>"

text \<open>The same first workflow with a first step that has no description.\<close>

definition wf_undescribed :: workflow where
  "wf_undescribed =
     wf_cooling\<lparr>wf_steps := [\<lparr>ws_script_id = ''script-001'', ws_action = ''calculate_cooling_loads'',
                               ws_description = None\<rparr>]\<rparr>"

definition provider1 :: provider where
  "provider1 = \<lparr>get_all_workflows = [wf_undescribed],
                get_script_by_id = map_of [(''script-001'', script1)]\<rparr>"

text \<open>Tasks: a geometry file and no weather; the same with a weather file.\<close>

definition task0 :: task where
  "task0 = \<lparr>intent = ''cooling demand'', scope = Some district,
            inputs = [(''geometry'', ''zone.geojson'')], constraints = [],
            raw_text = ''estimate district cooling demand''\<rparr>"

definition task1 :: task where
  "task1 = task0\<lparr>inputs := [(''geometry'', ''zone.geojson''), (''weather'', ''weather.epw'')],
                 constraints := [(''algorithm'', ''genetic'')]\<rparr>"

text \<open>A task whose only input is an Excel file under the key \<open>data\<close>.\<close>

definition task_xlsx :: task where
  "task_xlsx = \<lparr>intent = ''energy demand'', scope = None,
                inputs = [(''data'', ''loads.xlsx'')], constraints = [],
                raw_text = ''energy demand from loads.xlsx''\<rparr>"

text \<open>
  Messages of content type \<open>task\<close>: one that carries \<open>task0\<close> as a dictionary and one with
  an empty dictionary. A second provider that knows one more script, which no workflow
  refers to.
\<close>

definition task_msg :: message where
  "task_msg = \<lparr>performative = REQUEST, sender = ''alice'', receiver = ''translator'',
               conversation_id = ''conv-2'', content_type = ''task'',
               content = [(''intent'', PStr ''cooling demand''), (''scope'', PStr ''district''),
                          (''inputs'', PDict [(''geometry'', PStr ''zone.geojson'')]),
                          (''constraints'', PDict []),
                          (''raw_text'', PStr ''estimate district cooling demand'')],
               timestamp = 7\<rparr>"

definition empty_task_msg :: message where
  "empty_task_msg = task_msg\<lparr>content := []\<rparr>"

definition provider2 :: provider where
  "provider2 = \<lparr>get_all_workflows = [wf_network, wf_cooling],
                get_script_by_id = map_of [(''script-999'', script1), (''script-001'', script1)]\<rparr>"

section \<open>Message replies\<close>

lemma create_fields:
  "performative (create p s r cv ct c ts now) = p"
  "sender (create p s r cv ct c ts now) = s"
  "receiver (create p s r cv ct c ts now) = r"
  "conversation_id (create p s r cv ct c ts now) = cv"
  "content_type (create p s r cv ct c ts now) = ct"
  "content (create p s r cv ct c ts now) = c"
  "timestamp (create p s r cv ct c None now) = now"
  by (simp_all add: create_def)

text \<open>
  Claim C2, as stated, promises the explicit override as sender whenever one is given.
  An override that is the empty string is given and yet ignored, because
  \<open>sender or self.receiver\<close> treats it as absent.
\<close>

theorem reply_empty_override_counterexample:
  "sender (reply msg0 INFORM ''pong'' [] (Some []) 9) \<noteq> []"
  by (simp add: reply_def create_def str_or_def msg0_def)

text \<open>
  Claim C2, amended: the reply keeps the conversation id, is addressed to the sender of
  the original, and is sent by the override when that is given and not the empty string,
  by the original's receiver otherwise; performative, content type and content are the
  arguments of the call and the timestamp is the clock reading of the call, whatever the
  original carried.
\<close>

theorem reply_correlates:
  "conversation_id (reply M p ct c ov now) = conversation_id M
   \<and> receiver (reply M p ct c ov now) = sender M
   \<and> sender (reply M p ct c ov now) =
       (case ov of None \<Rightarrow> receiver M | Some s \<Rightarrow> if s = [] then receiver M else s)
   \<and> performative (reply M p ct c ov now) = p
   \<and> content_type (reply M p ct c ov now) = ct
   \<and> content (reply M p ct c ov now) = c
   \<and> timestamp (reply M p ct c ov now) = now"
  by (simp add: reply_def create_fields str_or_def)

theorem reply_correlates_witness:
  "sender (reply msg0 INFORM ''pong'' [] (Some ''carol'') 9) = ''carol''
   \<and> sender (reply msg0 INFORM ''pong'' [] None 9) = ''bob''
   \<and> receiver (reply msg0 INFORM ''pong'' [] None 9) = ''alice''
   \<and> conversation_id (reply msg0 INFORM ''pong'' [] None 9) = ''conv-1''
   \<and> timestamp (reply msg0 INFORM ''pong'' [] None 9) = 9"
  using reply_correlates [of msg0 INFORM "''pong''" "[]" "Some ''carol''" 9]
    reply_correlates [of msg0 INFORM "''pong''" "[]" None 9]
  by (simp add: msg0_def)

section \<open>Routing\<close>

lemma route_unregistered:
  "agents w (receiver m) = None \<Longrightarrow> route m w = (False, w)"
  by (simp add: route_def)

lemma route_shutdown:
  "agents w (receiver m) = Some q \<Longrightarrow> is_shutdown (queues w q) \<Longrightarrow> route m w = (False, w)"
  by (simp add: route_def put_def)

lemma route_live:
  "agents w (receiver m) = Some q \<Longrightarrow> \<not> is_shutdown (queues w q) \<Longrightarrow>
   route m w = (True, w\<lparr>queues := (queues w)(q := (queues w q)\<lparr>items := items (queues w q) @ [m]\<rparr>)\<rparr>)"
  by (simp add: route_def put_def)

lemma route_agents [simp]: "agents (snd (route m w)) = agents w"
  by (simp add: route_def put_def split: option.splits sum.splits)

lemma route_running [simp]: "running (snd (route m w)) = running w"
  by (simp add: route_def put_def split: option.splits sum.splits)

lemma route_clock [simp]: "clock (snd (route m w)) = clock w"
  by (simp add: route_def put_def split: option.splits sum.splits)

text \<open>
  Claim C3, as stated, makes an unregistered receiver the only reason for \<open>False\<close>. The
  \<open>except\<close> branch of \<open>route\<close> is a second one: \<open>bob\<close> is registered, his queue has been
  shut down, \<open>put\<close> raises and \<open>route\<close> answers \<open>False\<close> with nothing queued.
\<close>

theorem route_false_registered_counterexample:
  "is_agent_registered (receiver msg0) world_shut
   \<and> fst (route msg0 world_shut) = False
   \<and> snd (route msg0 world_shut) = world_shut"
  by (simp add: route_def put_def is_agent_registered_def world_shut_def msg0_def)

text \<open>
  Claim C3, amended: \<open>route\<close> answers \<open>False\<close> exactly when the receiver is not registered
  or \<open>put\<close> on the registered queue raises, and then the state is unchanged (nothing is
  queued, nothing retried). Otherwise it answers \<open>True\<close> and the only change is the message
  appended once at the tail of the registered queue, so the queue holds one occurrence
  more than before. A message routed to \<open>nm\<close> after \<open>register_agent nm q\<close> lands on \<open>q\<close>
  in this way when \<open>q\<close> accepts it, and after \<open>unregister_agent nm\<close> it is dropped.
\<close>

theorem route_delivery:
  "(fst (route m w) = False \<longleftrightarrow>
      (\<not> is_agent_registered (receiver m) w
       \<or> (\<exists>q. agents w (receiver m) = Some q \<and> is_shutdown (queues w q))))
   \<and> (fst (route m w) = False \<longrightarrow> snd (route m w) = w)
   \<and> (\<forall>q. agents w (receiver m) = Some q \<and> \<not> is_shutdown (queues w q) \<longrightarrow>
         route m w =
           (True, w\<lparr>queues := (queues w)(q := (queues w q)\<lparr>items := items (queues w q) @ [m]\<rparr>)\<rparr>)
         \<and> count_list (items (queues (snd (route m w)) q)) m
             = Suc (count_list (items (queues w q)) m))
   \<and> (\<not> is_shutdown (queues w q0) \<longrightarrow>
         fst (route (m\<lparr>receiver := nm\<rparr>) (register_agent nm q0 w))
         \<and> items (queues (snd (route (m\<lparr>receiver := nm\<rparr>) (register_agent nm q0 w))) q0)
             = items (queues w q0) @ [m\<lparr>receiver := nm\<rparr>])
   \<and> route (m\<lparr>receiver := nm\<rparr>) (unregister_agent nm w) = (False, unregister_agent nm w)"
proof -
  have a: "fst (route m w) = False \<longleftrightarrow>
      (\<not> is_agent_registered (receiver m) w
       \<or> (\<exists>q. agents w (receiver m) = Some q \<and> is_shutdown (queues w q)))"
    by (auto simp: route_def put_def is_agent_registered_def split: option.splits)
  have b: "fst (route m w) = False \<longrightarrow> snd (route m w) = w"
    by (auto simp: route_def put_def split: option.splits if_splits)
  have c: "\<forall>q. agents w (receiver m) = Some q \<and> \<not> is_shutdown (queues w q) \<longrightarrow>
         route m w =
           (True, w\<lparr>queues := (queues w)(q := (queues w q)\<lparr>items := items (queues w q) @ [m]\<rparr>)\<rparr>)
         \<and> count_list (items (queues (snd (route m w)) q)) m
             = Suc (count_list (items (queues w q)) m)"
    by (simp add: route_live)
  have d: "\<not> is_shutdown (queues w q0) \<longrightarrow>
         fst (route (m\<lparr>receiver := nm\<rparr>) (register_agent nm q0 w))
         \<and> items (queues (snd (route (m\<lparr>receiver := nm\<rparr>) (register_agent nm q0 w))) q0)
             = items (queues w q0) @ [m\<lparr>receiver := nm\<rparr>]"
    by (simp add: route_def put_def register_agent_def)
  have e: "route (m\<lparr>receiver := nm\<rparr>) (unregister_agent nm w) = (False, unregister_agent nm w)"
    by (auto simp: route_def unregister_agent_def split: option.splits)
  from a b c d e show ?thesis by blast
qed

theorem route_delivery_witness:
  "fst (route msg0 world0)
   \<and> items (queues (snd (route msg0 world0)) 0) = [msg0]
   \<and> items (queues (snd (route msg0 world0)) 1) = []
   \<and> \<not> fst (route (msg0\<lparr>receiver := ''carol''\<rparr>) world0)
   \<and> snd (route (msg0\<lparr>receiver := ''carol''\<rparr>) world0) = world0"
proof -
  have r: "agents world0 (receiver msg0) = Some 0 \<and> \<not> is_shutdown (queues world0 0)"
    by (simp add: world0_def msg0_def)
  have u: "\<not> is_agent_registered (receiver (msg0\<lparr>receiver := ''carol''\<rparr>)) world0"
    by (simp add: world0_def is_agent_registered_def)
  from r route_delivery [of msg0 world0 0 "''bob''"]
  have "route msg0 world0 =
      (True, world0\<lparr>queues := (queues world0)(0 := (queues world0 0)\<lparr>items := items (queues world0 0) @ [msg0]\<rparr>)\<rparr>)"
    by blast
  moreover from u route_delivery [of "msg0\<lparr>receiver := ''carol''\<rparr>" world0 0 "''bob''"]
  have "fst (route (msg0\<lparr>receiver := ''carol''\<rparr>) world0) = False
        \<and> snd (route (msg0\<lparr>receiver := ''carol''\<rparr>) world0) = world0"
    by blast
  ultimately show ?thesis by (simp add: world0_def)
qed

section \<open>Handler failures\<close>

lemma handle_message_returns: "fst (handle_message ag m w) = Inr ()"
  by (simp add: handle_message_def split: option.splits prod.splits sum.splits)

text \<open>
  Claim C4: when the handler registered for the content type of \<open>M\<close> raises \<open>e\<close>, leaving
  the state \<open>w'\<close>, \<open>handle_message\<close> returns normally and what it adds to \<open>w'\<close> is one call
  of \<open>route\<close>, on the FAILURE reply \<open>R\<close>: addressed to the sender of \<open>M\<close>, in the
  conversation of \<open>M\<close>, of content type \<open>error\<close>, carrying the text of the exception and
  the content type of \<open>M\<close>. When that sender is registered with a queue that accepts
  messages, the queue gains \<open>R\<close> once. The agent's flag \<open>_running\<close> is as the handler left
  it, and the loop of \<open>run\<close> goes on from the state after the reply with the passes it
  has left.
\<close>

theorem handler_failure_contained:
  assumes h: "handlers ag (content_type M) = Some h"
    and raises: "h M w = (Inl e, w')"
    and R: "R = reply M FAILURE ''error''
                  [(''error'', PStr (exn_msg e)),
                   (''original_content_type'', PStr (content_type M))]
                  (Some (name ag)) (clock w')"
  shows "handle_message ag M w = (Inr (), snd (route R w'))
    \<and> performative R = FAILURE \<and> receiver R = sender M
    \<and> conversation_id R = conversation_id M \<and> content_type R = ''error''
    \<and> content R = [(''error'', PStr (exn_msg e)),
                    (''original_content_type'', PStr (content_type M))]
    \<and> (\<forall>q. agents w' (sender M) = Some q \<and> \<not> is_shutdown (queues w' q) \<longrightarrow>
          items (queues (snd (handle_message ag M w)) q) = items (queues w' q) @ [R])
    \<and> running (snd (handle_message ag M w)) = running w'
    \<and> agents (snd (handle_message ag M w)) = agents w'
    \<and> (\<forall>w0 k. inbox_get (inbox_ref ag) w0 = Some (M, w) \<and> running w0 (name ag) \<longrightarrow>
          run_iteration ag w0 = snd (route R w')
          \<and> run_loop (Suc k) ag w0 = run_loop k ag (snd (route R w')))"
proof -
  have hm: "handle_message ag M w = (Inr (), snd (route R w'))"
    using h raises by (simp add: handle_message_def agent_reply_def R)
  have rcv: "receiver R = sender M"
    by (simp add: R reply_def create_fields)
  have fields: "performative R = FAILURE \<and> conversation_id R = conversation_id M
      \<and> content_type R = ''error''
      \<and> content R = [(''error'', PStr (exn_msg e)),
                      (''original_content_type'', PStr (content_type M))]"
    by (simp add: R reply_def create_fields)
  have deliv: "\<forall>q. agents w' (sender M) = Some q \<and> \<not> is_shutdown (queues w' q) \<longrightarrow>
          items (queues (snd (handle_message ag M w)) q) = items (queues w' q) @ [R]"
    using rcv by (simp add: hm route_live)
  have loop: "\<forall>w0 k. inbox_get (inbox_ref ag) w0 = Some (M, w) \<and> running w0 (name ag) \<longrightarrow>
          run_iteration ag w0 = snd (route R w')
          \<and> run_loop (Suc k) ag w0 = run_loop k ag (snd (route R w'))"
    by (simp add: run_iteration_def hm)
  from hm rcv fields deliv loop show ?thesis by simp
qed

text \<open>
  At \<open>bob\<close>, whose handler for \<open>ping\<close> raises: one pass of his loop takes \<open>msg0\<close> from his
  inbox and leaves one FAILURE message on the inbox of \<open>alice\<close>; he is still running, and
  the next pass takes the next message from his inbox.
\<close>

theorem handler_failure_contained_witness:
  "items (queues (run_iteration bob world1) 1) =
     [\<lparr>performative = FAILURE, sender = ''bob'', receiver = ''alice'',
       conversation_id = ''conv-1'', content_type = ''error'',
       content = [(''error'', PStr ''boom''), (''original_content_type'', PStr ''ping'')],
       timestamp = 9\<rparr>]
   \<and> running (run_iteration bob world1) ''bob''
   \<and> items (queues (run_iteration bob world1) 0) = [msg0\<lparr>content_type := ''other''\<rparr>]
   \<and> items (queues (run_loop 2 bob world1) 0) = []
   \<and> length (items (queues (run_loop 2 bob world1) 1)) = 1"
proof -
  define w where "w = world1\<lparr>queues := (queues world1)(0 := (queues world1 0)\<lparr>items := [msg0\<lparr>content_type := ''other''\<rparr>]\<rparr>)\<rparr>"
  define R where "R = reply msg0 FAILURE ''error''
                  [(''error'', PStr (exn_msg (Exception ''ValueError'' ''boom''))),
                   (''original_content_type'', PStr (content_type msg0))]
                  (Some (name bob)) (clock w)"
  have h: "handlers bob (content_type msg0) = Some boom"
    by (simp add: bob_def msg0_def)
  have raises: "boom msg0 w = (Inl (Exception ''ValueError'' ''boom''), w)"
    by (simp add: boom_def)
  have get: "inbox_get (inbox_ref bob) world1 = Some (msg0, w) \<and> running world1 (name bob)"
    by (simp add: inbox_get_def bob_def world1_def w_def)
  from handler_failure_contained [OF h raises R_def] get
  have it: "run_iteration bob world1 = snd (route R w)"
    and lp: "run_loop (Suc (Suc 0)) bob world1 = run_loop (Suc 0) bob (snd (route R w))"
    by blast+
  have Rv: "R = \<lparr>performative = FAILURE, sender = ''bob'', receiver = ''alice'',
       conversation_id = ''conv-1'', content_type = ''error'',
       content = [(''error'', PStr ''boom''), (''original_content_type'', PStr ''ping'')],
       timestamp = 9\<rparr>"
    by (simp add: R_def reply_def create_def str_or_def bob_def msg0_def w_def world1_def)
  have rt: "snd (route R w) =
      w\<lparr>queues := (queues w)(1 := (queues w 1)\<lparr>items := items (queues w 1) @ [R]\<rparr>)\<rparr>"
    by (simp add: route_def put_def Rv w_def world1_def)
  have two: "run_loop 2 bob world1 = run_loop (Suc 0) bob (snd (route R w))"
    using lp by (simp add: numeral_2_eq_2)
  have nxt: "run_iteration bob (snd (route R w)) =
      (snd (route R w))\<lparr>queues := (queues (snd (route R w)))(0 := (queues (snd (route R w)) 0)\<lparr>items := []\<rparr>)\<rparr>"
    unfolding rt
    by (simp add: run_iteration_def inbox_get_def handle_message_def bob_def w_def world1_def)
  have run1: "running (snd (route R w)) (name bob)"
    unfolding rt by (simp add: bob_def w_def world1_def)
  have lp1: "run_loop 2 bob world1 = run_iteration bob (snd (route R w))"
    using run1 by (simp add: two)
  show ?thesis
    unfolding lp1 nxt it
    unfolding rt
    by (simp add: Rv w_def world1_def)
qed

section \<open>Workflow selection\<close>

lemma best_loop_keeps:
  "\<forall>x\<in>set wfls. calculate_workflow_score t x \<le> s \<Longrightarrow> best_loop t wfls (b, s) = (b, s)"
  by (induction wfls) (auto simp: Let_def)

lemma best_loop_first_max:
  assumes "s < calculate_workflow_score t w"
    and "\<forall>x\<in>set pre. calculate_workflow_score t x < calculate_workflow_score t w"
    and "\<forall>x\<in>set post. calculate_workflow_score t x \<le> calculate_workflow_score t w"
  shows "best_loop t (pre @ w # post) (b, s) = (Some w, calculate_workflow_score t w)"
  using assms
proof (induction pre arbitrary: b s)
  case Nil
  then show ?case by (simp add: Let_def best_loop_keeps)
next
  case (Cons x pre)
  show ?case
  proof (cases "s < calculate_workflow_score t x")
    case True
    have "best_loop t (pre @ w # post) (Some x, calculate_workflow_score t x)
            = (Some w, calculate_workflow_score t w)"
      using Cons.prems by (intro Cons.IH) auto
    with True show ?thesis by (simp add: Let_def)
  next
    case False
    have "best_loop t (pre @ w # post) (b, s) = (Some w, calculate_workflow_score t w)"
      using Cons.prems by (intro Cons.IH) auto
    with False show ?thesis by (simp add: Let_def)
  qed
qed

lemma first_max_split:
  fixes f :: "'a \<Rightarrow> nat"
  shows "xs \<noteq> [] \<Longrightarrow>
    \<exists>pre w post. xs = pre @ w # post \<and> (\<forall>x\<in>set pre. f x < f w) \<and> (\<forall>x\<in>set post. f x \<le> f w)"
proof (induction xs)
  case Nil
  then show ?case by simp
next
  case (Cons a xs)
  show ?case
  proof (cases "xs = []")
    case True
    then have "a # xs = [] @ a # []" by simp
    then show ?thesis by (metis empty_iff list.set(1))
  next
    case False
    with Cons.IH obtain pre w post where
      xs: "xs = pre @ w # post" and pre: "\<forall>x\<in>set pre. f x < f w" and post: "\<forall>x\<in>set post. f x \<le> f w"
      by blast
    show ?thesis
    proof (cases "f a < f w")
      case True
      have "a # xs = (a # pre) @ w # post" by (simp add: xs)
      moreover have "\<forall>x\<in>set (a # pre). f x < f w" using True pre by simp
      ultimately show ?thesis using post by blast
    next
      case False
      have "a # xs = [] @ a # xs" by simp
      moreover have "\<forall>x\<in>set xs. f x \<le> f a"
        using False pre post xs by (auto simp: less_imp_le dest: le_trans)
      ultimately show ?thesis by (metis empty_iff list.set(1))
    qed
  qed
qed

lemma candidate_iff:
  "w \<in> set (get_candidate_workflows p t) \<longleftrightarrow>
     w \<in> set (get_all_workflows p) \<and> extract_task_tags t \<inter> set (wf_tags w) \<noteq> {}"
  by (simp add: get_candidate_workflows_def)

lemma candidate_overlap:
  assumes "w \<in> set (get_candidate_workflows p t)"
  shows "1 \<le> card (extract_task_tags t \<inter> set (wf_tags w))"
proof -
  have "finite (extract_task_tags t \<inter> set (wf_tags w))" by simp
  moreover have "extract_task_tags t \<inter> set (wf_tags w) \<noteq> {}"
    using assms by (simp add: candidate_iff)
  ultimately show ?thesis by (simp add: Suc_le_eq card_gt_0_iff)
qed

lemma overlap_le_score:
  "card (extract_task_tags t \<inter> set (wf_tags w)) \<le> calculate_workflow_score t w"
  by (simp add: calculate_workflow_score_def Let_def)

lemma find_best_first_max:
  assumes "get_candidate_workflows p t = pre @ w # post"
    and "\<forall>x\<in>set pre. calculate_workflow_score t x < calculate_workflow_score t w"
    and "\<forall>x\<in>set post. calculate_workflow_score t x \<le> calculate_workflow_score t w"
  shows "find_best_workflow p t = Some w"
proof -
  have "w \<in> set (get_candidate_workflows p t)" using assms(1) by simp
  then have "0 < calculate_workflow_score t w"
    using candidate_overlap [of w p t] overlap_le_score [of t w] by linarith
  then have "best_loop t (pre @ w # post) (None, 0) = (Some w, calculate_workflow_score t w)"
    using assms(2,3) by (rule best_loop_first_max)
  then show ?thesis by (simp add: find_best_workflow_def assms(1))
qed

text \<open>
  Claim C5: the score is the number of tags that the task and the workflow share, plus 5
  when the workflow's name contains the intent or one of its whitespace-separated words,
  plus 2 when the scope is set and is one of the workflow's tags. When there are
  candidates, the selection returns the first candidate, in the provider's order, whose
  score no candidate exceeds: every earlier candidate scores strictly less, every later
  one at most as much.
\<close>

theorem score_and_selection:
  "calculate_workflow_score t w =
     card (extract_task_tags t \<inter> set (wf_tags w))
     + (if str_in (intent t) (wf_name w) \<or> (\<exists>word\<in>set (split (intent t)). str_in word (wf_name w))
        then 5 else 0)
     + (if \<exists>sc. scope t = Some sc \<and> scope_str sc \<in> set (wf_tags w) then 2 else 0)
   \<and> (get_candidate_workflows p t \<noteq> [] \<longrightarrow>
        (\<exists>pre best post.
           get_candidate_workflows p t = pre @ best # post
           \<and> find_best_workflow p t = Some best
           \<and> (\<forall>x\<in>set pre. calculate_workflow_score t x < calculate_workflow_score t best)
           \<and> (\<forall>x\<in>set post. calculate_workflow_score t x \<le> calculate_workflow_score t best)))"
proof -
  have score: "calculate_workflow_score t w =
     card (extract_task_tags t \<inter> set (wf_tags w))
     + (if str_in (intent t) (wf_name w) \<or> (\<exists>word\<in>set (split (intent t)). str_in word (wf_name w))
        then 5 else 0)
     + (if \<exists>sc. scope t = Some sc \<and> scope_str sc \<in> set (wf_tags w) then 2 else 0)"
    by (cases "scope t") (simp_all add: calculate_workflow_score_def Let_def list_ex_iff)
  have sel: "get_candidate_workflows p t \<noteq> [] \<longrightarrow>
        (\<exists>pre best post.
           get_candidate_workflows p t = pre @ best # post
           \<and> find_best_workflow p t = Some best
           \<and> (\<forall>x\<in>set pre. calculate_workflow_score t x < calculate_workflow_score t best)
           \<and> (\<forall>x\<in>set post. calculate_workflow_score t x \<le> calculate_workflow_score t best))"
  proof
    assume "get_candidate_workflows p t \<noteq> []"
    from first_max_split [OF this, of "calculate_workflow_score t"]
    obtain pre best post where
      d: "get_candidate_workflows p t = pre @ best # post"
      and a: "\<forall>x\<in>set pre. calculate_workflow_score t x < calculate_workflow_score t best"
      and b: "\<forall>x\<in>set post. calculate_workflow_score t x \<le> calculate_workflow_score t best"
      by blast
    from find_best_first_max [OF d a b] d a b
    show "\<exists>pre best post.
           get_candidate_workflows p t = pre @ best # post
           \<and> find_best_workflow p t = Some best
           \<and> (\<forall>x\<in>set pre. calculate_workflow_score t x < calculate_workflow_score t best)
           \<and> (\<forall>x\<in>set post. calculate_workflow_score t x \<le> calculate_workflow_score t best)"
      by blast
  qed
  from score sel show ?thesis by blast
qed

theorem score_and_selection_witness:
  "calculate_workflow_score task0 wf_network = 3
   \<and> calculate_workflow_score task0 wf_cooling = 7
   \<and> get_candidate_workflows provider0 task0 = [wf_network, wf_cooling]
   \<and> find_best_workflow provider0 task0 = Some wf_cooling"
proof -
  have c: "get_candidate_workflows provider0 task0 = [wf_network, wf_cooling]" by code_simp
  have n: "calculate_workflow_score task0 wf_network = 3" by code_simp
  have k: "calculate_workflow_score task0 wf_cooling = 7" by code_simp
  from c score_and_selection [of task0 wf_cooling provider0]
  obtain pre best post where
    d: "[wf_network, wf_cooling] = pre @ best # post"
    and f: "find_best_workflow provider0 task0 = Some best"
    and a: "\<forall>x\<in>set pre. calculate_workflow_score task0 x < calculate_workflow_score task0 best"
    and b: "\<forall>x\<in>set post. calculate_workflow_score task0 x \<le> calculate_workflow_score task0 best"
    by auto
  have "best = wf_cooling"
  proof (cases pre)
    case Nil
    with d have "best = wf_network" "post = [wf_cooling]" by simp_all
    with b n k show ?thesis by simp
  next
    case (Cons x pre')
    with d have "pre' @ best # post = [wf_cooling]" by simp
    then show ?thesis by (cases pre') simp_all
  qed
  with f c n k show ?thesis by simp
qed

text \<open>
  Claim C9: every candidate has a tag overlap of at least 1 and a score of at least its
  overlap, above the initial best score 0; so when there is a candidate the selection
  returns one of the candidates, it returns none only when there is no candidate, and
  the reply \<open>No workflow found\<close> to a task that parses is given exactly when the
  candidate list is empty.
\<close>

theorem candidates_have_a_winner:
  "(get_candidate_workflows p t \<noteq> [] \<longrightarrow>
      (\<exists>w. find_best_workflow p t = Some w \<and> w \<in> set (get_candidate_workflows p t)))
   \<and> (\<forall>w\<in>set (get_candidate_workflows p t).
          1 \<le> card (extract_task_tags t \<inter> set (wf_tags w))
          \<and> card (extract_task_tags t \<inter> set (wf_tags w)) \<le> calculate_workflow_score t w
          \<and> 0 < calculate_workflow_score t w)
   \<and> (find_best_workflow p t = None \<longleftrightarrow> get_candidate_workflows p t = [])
   \<and> (from_dict c = Inr t \<longrightarrow>
        (task_answer hord p c =
           Inr (FAILURE, ''error'', [(''error'', PStr (''No workflow found for intent: '' @ intent t))])
         \<longleftrightarrow> get_candidate_workflows p t = []))"
proof -
  have win: "get_candidate_workflows p t \<noteq> [] \<longrightarrow>
      (\<exists>w. find_best_workflow p t = Some w \<and> w \<in> set (get_candidate_workflows p t))"
  proof
    assume ne: "get_candidate_workflows p t \<noteq> []"
    from first_max_split [OF ne, of "calculate_workflow_score t"]
    obtain pre best post where
      d: "get_candidate_workflows p t = pre @ best # post"
      and a: "\<forall>x\<in>set pre. calculate_workflow_score t x < calculate_workflow_score t best"
      and b: "\<forall>x\<in>set post. calculate_workflow_score t x \<le> calculate_workflow_score t best"
      by blast
    have "find_best_workflow p t = Some best" by (rule find_best_first_max [OF d a b])
    moreover have "best \<in> set (get_candidate_workflows p t)" by (simp add: d)
    ultimately show "\<exists>w. find_best_workflow p t = Some w \<and> w \<in> set (get_candidate_workflows p t)"
      by blast
  qed
  have scores: "\<forall>w\<in>set (get_candidate_workflows p t).
          1 \<le> card (extract_task_tags t \<inter> set (wf_tags w))
          \<and> card (extract_task_tags t \<inter> set (wf_tags w)) \<le> calculate_workflow_score t w
          \<and> 0 < calculate_workflow_score t w"
  proof
    fix w assume w: "w \<in> set (get_candidate_workflows p t)"
    from candidate_overlap [OF w] overlap_le_score [of t w]
    show "1 \<le> card (extract_task_tags t \<inter> set (wf_tags w))
          \<and> card (extract_task_tags t \<inter> set (wf_tags w)) \<le> calculate_workflow_score t w
          \<and> 0 < calculate_workflow_score t w"
      by linarith
  qed
  have none: "find_best_workflow p t = None \<longleftrightarrow> get_candidate_workflows p t = []"
  proof
    assume "find_best_workflow p t = None"
    with win show "get_candidate_workflows p t = []" by auto
  next
    assume "get_candidate_workflows p t = []"
    then show "find_best_workflow p t = None" by (simp add: find_best_workflow_def)
  qed
  have answer: "from_dict c = Inr t \<longrightarrow>
        (task_answer hord p c =
           Inr (FAILURE, ''error'', [(''error'', PStr (''No workflow found for intent: '' @ intent t))])
         \<longleftrightarrow> get_candidate_workflows p t = [])"
  proof
    assume fd: "from_dict c = Inr t"
    show "task_answer hord p c =
           Inr (FAILURE, ''error'', [(''error'', PStr (''No workflow found for intent: '' @ intent t))])
         \<longleftrightarrow> get_candidate_workflows p t = []"
    proof (cases "find_best_workflow p t")
      case None
      with none fd show ?thesis by (simp add: task_answer_def)
    next
      case (Some best)
      with none have ne: "get_candidate_workflows p t \<noteq> []" by auto
      have "task_answer hord p c \<noteq>
           Inr (FAILURE, ''error'', [(''error'', PStr (''No workflow found for intent: '' @ intent t))])"
        using fd Some by (simp add: task_answer_def split: sum.splits)
      with ne show ?thesis by simp
    qed
  qed
  from win scores none answer show ?thesis by blast
qed

theorem candidates_have_a_winner_witness:
  "get_candidate_workflows provider0 task0 \<noteq> []
   \<and> find_best_workflow provider0 task0 \<noteq> None
   \<and> 0 < calculate_workflow_score task0 wf_network"
proof -
  have c: "get_candidate_workflows provider0 task0 = [wf_network, wf_cooling]" by code_simp
  from c candidates_have_a_winner [of provider0 task0 "[]" "\<lambda>x. x"]
  have "find_best_workflow provider0 task0 \<noteq> None"
    and "\<forall>w\<in>set [wf_network, wf_cooling]. 0 < calculate_workflow_score task0 w"
    by auto
  with c show ?thesis by simp
qed


section \<open>Argument mapping\<close>

lemma map_file_input_row:
  "map_file_input kv a = (case file_arg kv of Some x \<Rightarrow> AList.update x (snd kv) a | None \<Rightarrow> a)"
  by (cases kv) (simp add: map_file_input_def file_arg_def)

lemma map_constraint_row:
  "map_constraint kv a = (case constraint_arg kv of Some x \<Rightarrow> AList.update x (snd kv) a | None \<Rightarrow> a)"
  by (cases kv) (simp add: map_constraint_def constraint_arg_def)

lemma last_mapped_Nil [simp]: "last_mapped f x [] = None"
  by (simp add: last_mapped_def)

lemma last_mapped_Cons:
  "last_mapped f x (kv # kvs) =
     (case last_mapped f x kvs of
        Some v \<Rightarrow> Some v
      | None \<Rightarrow> if f kv = Some x then Some (snd kv) else None)"
  by (simp add: last_mapped_def split: list.splits)

lemma fold_rows_lookup:
  "map_of (fold (\<lambda>kv a. case f kv of Some y \<Rightarrow> AList.update y (snd kv) a | None \<Rightarrow> a) kvs a) x =
     (case last_mapped f x kvs of Some v \<Rightarrow> Some v | None \<Rightarrow> map_of a x)"
proof (induction kvs arbitrary: a)
  case Nil
  then show ?case by simp
next
  case (Cons kv kvs)
  show ?case
    by (simp add: Cons.IH last_mapped_Cons update_conv' split: option.splits)
qed

lemma fold_rows_distinct:
  "distinct (map fst a) \<Longrightarrow>
   distinct (map fst (fold (\<lambda>kv a. case f kv of Some y \<Rightarrow> AList.update y (snd kv) a | None \<Rightarrow> a) kvs a))"
  by (induction kvs arbitrary: a) (simp_all add: distinct_update split: option.splits)

lemma map_file_input_rows:
  "map_file_input = (\<lambda>kv a. case file_arg kv of Some y \<Rightarrow> AList.update y (snd kv) a | None \<Rightarrow> a)"
  by (intro ext) (rule map_file_input_row)

lemma map_constraint_rows:
  "map_constraint = (\<lambda>kv a. case constraint_arg kv of Some y \<Rightarrow> AList.update y (snd kv) a | None \<Rightarrow> a)"
  by (intro ext) (rule map_constraint_row)

lemma last_mapped_range:
  "last_mapped f x kvs = Some v \<Longrightarrow> \<exists>kv\<in>set kvs. f kv = Some x"
  by (auto simp: last_mapped_def split: list.splits dest: filter_eq_ConsD)

lemma file_arg_range:
  "file_arg kv = Some x \<Longrightarrow>
     x \<in> {''buildings'', ''weather_file'', ''occupancy_schedules'', ''energy_demands'',
          ''algorithm'', ''timestep'', ''scenario_config''}"
  by (cases kv) (simp add: file_arg_def split: if_splits)

lemma constraint_arg_range:
  "constraint_arg kv = Some x \<Longrightarrow>
     x \<in> {''buildings'', ''weather_file'', ''occupancy_schedules'', ''energy_demands'',
          ''algorithm'', ''timestep'', ''scenario_config''}"
  by (cases kv) (simp add: constraint_arg_def split: if_splits)

text \<open>
  Claim C7, as stated, sends every input with key \<open>data\<close> to \<open>energy_demands\<close>. The rows
  are the branches of one \<open>if\<close>/\<open>elif\<close> chain, so an input is mapped by the first row it
  matches only: the input \<open>data: loads.xlsx\<close> matches the row of \<open>*.xlsx\<close>, which stands
  before the row of \<open>data\<close>, and becomes \<open>occupancy_schedules\<close>; no \<open>energy_demands\<close>
  argument is produced.
\<close>

theorem args_skip_later_rows_counterexample:
  "map_of (map_task_inputs_to_script_args task_xlsx script1) ''energy_demands'' = None
   \<and> map_of (map_task_inputs_to_script_args task_xlsx script1) ''occupancy_schedules'' = Some ''loads.xlsx''"
  by code_simp

text \<open>
  Claim C7, amended: the arguments of a step are a dictionary with distinct keys among
  \<open>buildings\<close>, \<open>weather_file\<close>, \<open>occupancy_schedules\<close>, \<open>energy_demands\<close>, \<open>algorithm\<close>,
  \<open>timestep\<close> and \<open>scenario_config\<close>. \<open>scenario_config\<close> is \<open>scenario.yml\<close> when the script
  declares an input of that name. Any other argument has the value of the last
  constraint mapped to it (\<open>algorithm\<close>, \<open>timestep\<close>) or, failing that, of the last task
  input whose first matching row of the table, in the order geometry, weather, schedule,
  data, is the row of that argument; it is absent when there is none.
\<close>

theorem args_by_table:
  "map_of (map_task_inputs_to_script_args t sc) x =
     (if x = ''scenario_config'' \<and> (\<exists>inp\<in>set (sc_inputs sc). si_name inp = ''scenario_config'')
      then Some ''scenario.yml''
      else case last_mapped constraint_arg x (constraints t) of
             Some v \<Rightarrow> Some v
           | None \<Rightarrow> last_mapped file_arg x (inputs t))
   \<and> distinct (map fst (map_task_inputs_to_script_args t sc))
   \<and> fst ` set (map_task_inputs_to_script_args t sc)
       \<subseteq> {''buildings'', ''weather_file'', ''occupancy_schedules'', ''energy_demands'',
          ''algorithm'', ''timestep'', ''scenario_config''}"
proof -
  let ?a1 = "fold map_file_input (inputs t) []"
  let ?a2 = "fold map_constraint (constraints t) ?a1"
  have a1: "map_of ?a1 y = last_mapped file_arg y (inputs t)" for y
    by (simp add: map_file_input_rows fold_rows_lookup split: option.splits)
  have a2: "map_of ?a2 y =
      (case last_mapped constraint_arg y (constraints t) of
         Some v \<Rightarrow> Some v | None \<Rightarrow> last_mapped file_arg y (inputs t))" for y
    unfolding map_constraint_rows fold_rows_lookup
    by (simp add: a1 split: option.splits)
  have look: "map_of (map_task_inputs_to_script_args t sc) x =
     (if x = ''scenario_config'' \<and> (\<exists>inp\<in>set (sc_inputs sc). si_name inp = ''scenario_config'')
      then Some ''scenario.yml''
      else case last_mapped constraint_arg x (constraints t) of
             Some v \<Rightarrow> Some v
           | None \<Rightarrow> last_mapped file_arg x (inputs t))" for x
    by (auto simp add: map_task_inputs_to_script_args_def Let_def list_ex_iff update_conv' a2)
  have d1: "distinct (map fst ?a1)"
    unfolding map_file_input_rows by (rule fold_rows_distinct) simp
  have d2: "distinct (map fst ?a2)"
    unfolding map_constraint_rows by (rule fold_rows_distinct) (rule d1)
  have dist: "distinct (map fst (map_task_inputs_to_script_args t sc))"
    using d2 by (simp add: map_task_inputs_to_script_args_def Let_def distinct_update)
  have keys: "fst ` set (map_task_inputs_to_script_args t sc)
       \<subseteq> {''buildings'', ''weather_file'', ''occupancy_schedules'', ''energy_demands'',
          ''algorithm'', ''timestep'', ''scenario_config''}"
  proof
    fix y assume "y \<in> fst ` set (map_task_inputs_to_script_args t sc)"
    then have "map_of (map_task_inputs_to_script_args t sc) y \<noteq> None"
      by (simp add: map_of_eq_None_iff)
    then obtain v where v: "map_of (map_task_inputs_to_script_args t sc) y = Some v" by blast
    show "y \<in> {''buildings'', ''weather_file'', ''occupancy_schedules'', ''energy_demands'',
          ''algorithm'', ''timestep'', ''scenario_config''}"
    proof (cases "y = ''scenario_config''")
      case True
      then show ?thesis by simp
    next
      case False
      with v look [of y] have lm:
        "(case last_mapped constraint_arg y (constraints t) of
             Some v \<Rightarrow> Some v | None \<Rightarrow> last_mapped file_arg y (inputs t)) = Some v"
        by simp
      show ?thesis
      proof (cases "last_mapped constraint_arg y (constraints t)")
        case None
        with lm have "last_mapped file_arg y (inputs t) = Some v" by simp
        from last_mapped_range [OF this] obtain kv where "file_arg kv = Some y" by blast
        then show ?thesis by (rule file_arg_range)
      next
        case (Some u)
        from last_mapped_range [OF this] obtain kv where "constraint_arg kv = Some y" by blast
        then show ?thesis by (rule constraint_arg_range)
      qed
    qed
  qed
  from look [of x] dist keys show ?thesis by blast
qed

theorem args_by_table_witness:
  "map_of (map_task_inputs_to_script_args task1 script1) ''weather_file'' = Some ''weather.epw''
   \<and> map_of (map_task_inputs_to_script_args task1 script1) ''buildings'' = Some ''zone.geojson''
   \<and> map_of (map_task_inputs_to_script_args task1 script1) ''algorithm'' = Some ''genetic''
   \<and> map_of (map_task_inputs_to_script_args task1 script1) ''scenario_config'' = Some ''scenario.yml''
   \<and> map_of (map_task_inputs_to_script_args task1 script1) ''energy_demands'' = None"
proof -
  have c: "last_mapped constraint_arg ''weather_file'' (constraints task1) = None"
      "last_mapped constraint_arg ''buildings'' (constraints task1) = None"
      "last_mapped constraint_arg ''algorithm'' (constraints task1) = Some ''genetic''"
      "last_mapped constraint_arg ''energy_demands'' (constraints task1) = None"
    by code_simp+
  have f: "last_mapped file_arg ''weather_file'' (inputs task1) = Some ''weather.epw''"
      "last_mapped file_arg ''buildings'' (inputs task1) = Some ''zone.geojson''"
      "last_mapped file_arg ''energy_demands'' (inputs task1) = None"
    by code_simp+
  have s: "\<exists>inp\<in>set (sc_inputs script1). si_name inp = ''scenario_config''"
    by (simp add: script1_def)
  show ?thesis
    using args_by_table [of task1 script1 "''weather_file''"]
      args_by_table [of task1 script1 "''buildings''"]
      args_by_table [of task1 script1 "''algorithm''"]
      args_by_table [of task1 script1 "''scenario_config''"]
      args_by_table [of task1 script1 "''energy_demands''"]
    by (simp add: c f s)
qed

section \<open>Plan computation\<close>

lemma those_None_iff: "those xs = None \<longleftrightarrow> None \<in> set xs"
  by (induction xs) (auto split: option.splits)

lemma join_optional_ok:
  "(\<exists>s. join_optional sep xs = Inr s) \<longleftrightarrow> None \<notin> set xs"
  using those_None_iff [of xs] by (auto simp: join_optional_def split: option.splits)

lemma generate_explanation_ok:
  "(\<exists>s. generate_explanation hord t wfl av mi = Inr s) \<longleftrightarrow> None \<notin> ws_description ` set (wf_steps wfl)"
proof -
  have "(\<exists>s. generate_explanation hord t wfl av mi = Inr s)
      \<longleftrightarrow> (\<exists>s. join_optional '', '' (map ws_description (wf_steps wfl)) = Inr s)"
    by (auto simp: generate_explanation_def Let_def split: sum.splits)
  then show ?thesis by (simp add: join_optional_ok)
qed

lemma compute_plan_ok:
  "(\<exists>pl. compute_plan hord p t wfl = Inr pl) \<longleftrightarrow> None \<notin> ws_description ` set (wf_steps wfl)"
proof -
  have "(\<exists>pl. compute_plan hord p t wfl = Inr pl)
      \<longleftrightarrow> (\<exists>s. generate_explanation hord t wfl
                  (fst (check_inputs (required_inputs (resolve_scripts p wfl)) t))
                  (snd (check_inputs (required_inputs (resolve_scripts p wfl)) t)) = Inr s)"
    by (auto simp: compute_plan_def Let_def split: sum.splits)
  then show ?thesis by (simp add: generate_explanation_ok)
qed

lemma compute_plan_fields:
  assumes "compute_plan hord p t wfl = Inr pl"
  shows "plan pl = make_plan_steps (resolve_scripts p wfl) t wfl"
    and "missing pl = snd (check_inputs (required_inputs (resolve_scripts p wfl)) t)"
    and "assumptions pl = generate_assumptions t wfl"
  using assms by (auto simp: compute_plan_def Let_def split: sum.splits)

lemma resolve_fold_lookup:
  "map_of (fold (\<lambda>sid scripts. case get_script_by_id p sid of
                                 Some sc \<Rightarrow> AList.update sid sc scripts
                               | None \<Rightarrow> scripts) ids d) x =
     (if x \<in> set ids \<and> get_script_by_id p x \<noteq> None then get_script_by_id p x else map_of d x)"
  by (induction ids arbitrary: d) (auto simp: update_conv' split: option.splits)

lemma resolve_scripts_lookup:
  "map_of (resolve_scripts p wfl) x =
     (if x \<in> ws_script_id ` set (wf_steps wfl) then get_script_by_id p x else None)"
  by (auto simp: resolve_scripts_def resolve_fold_lookup)

lemma make_plan_steps_resolved:
  "make_plan_steps (resolve_scripts p wfl) t wfl =
     concat (map (\<lambda>st. case get_script_by_id p (ws_script_id st) of
                          Some sc \<Rightarrow> [\<lparr>script_id = ws_script_id st,
                                       args = map_task_inputs_to_script_args t sc\<rparr>]
                        | None \<Rightarrow> [])
               (wf_steps wfl))"
  unfolding make_plan_steps_def
  by (rule arg_cong [where f = concat], rule map_cong) (simp_all add: resolve_scripts_lookup)

lemma plan_step_ids:
  "map script_id
     (concat (map (\<lambda>st. case get_script_by_id p (ws_script_id st) of
                          Some sc \<Rightarrow> [\<lparr>script_id = ws_script_id st,
                                       args = map_task_inputs_to_script_args t sc\<rparr>]
                        | None \<Rightarrow> []) sts))
   = filter (\<lambda>sid. get_script_by_id p sid \<noteq> None) (map ws_script_id sts)"
  by (induction sts) (auto split: option.splits)

lemma resolve_scripts_skip:
  assumes "get_script_by_id p (ws_script_id st) = None"
  shows "resolve_scripts p (wfl\<lparr>wf_steps := pre @ st # post\<rparr>)
       = resolve_scripts p (wfl\<lparr>wf_steps := pre @ post\<rparr>)"
  using assms by (simp add: resolve_scripts_def)


lemma required_inner_keys:
  "fst ` set (fold (\<lambda>inp req'. if si_required inp then AList.update (si_name inp) (si_type inp) req' else req')
               inps r0)
     = fst ` set r0 \<union> {si_name inp | inp. inp \<in> set inps \<and> si_required inp}"
  by (induction inps arbitrary: r0) (auto simp: dom_update)

lemma required_outer_keys:
  "fst ` set (fold (\<lambda>sc req.
             fold (\<lambda>inp req'. if si_required inp then AList.update (si_name inp) (si_type inp) req' else req')
               (sc_inputs sc) req) scs r0)
     = fst ` set r0 \<union> {si_name inp | sc inp. sc \<in> set scs \<and> inp \<in> set (sc_inputs sc) \<and> si_required inp}"
proof (induction scs arbitrary: r0)
  case Nil
  then show ?case by simp
next
  case (Cons sc scs)
  show ?case
    unfolding fold_simps Cons.IH required_inner_keys by auto
qed

lemma required_inputs_keys:
  "fst ` set (required_inputs scripts)
     = {si_name inp | sc inp. sc \<in> snd ` set scripts \<and> inp \<in> set (sc_inputs sc) \<and> si_required inp}"
  by (simp add: required_inputs_def required_outer_keys)

lemma resolved_script_mem:
  assumes "st \<in> set (wf_steps wfl)" and "get_script_by_id p (ws_script_id st) = Some sc"
  shows "sc \<in> snd ` set (resolve_scripts p wfl)"
proof -
  have "map_of (resolve_scripts p wfl) (ws_script_id st) = Some sc"
    using assms by (simp add: resolve_scripts_lookup)
  then have "(ws_script_id st, sc) \<in> set (resolve_scripts p wfl)" by (rule map_of_SomeD)
  then show ?thesis by force
qed

lemma check_inputs_weather:
  "''weather_epw'' \<in> set (snd (check_inputs required t)) \<longleftrightarrow>
     (''weather_file'' \<in> fst ` set required \<or> (\<exists>r\<in>fst ` set required. str_in ''weather'' (lower r)))
     \<and> \<not> ((\<exists>v\<in>snd ` set (inputs t). endswith v ''.epw'') \<or> ''weather'' \<in> fst ` set (inputs t))"
  "''weather_epw'' \<in> set (fst (check_inputs required t)) \<longleftrightarrow>
     (''weather_file'' \<in> fst ` set required \<or> (\<exists>r\<in>fst ` set required. str_in ''weather'' (lower r)))
     \<and> ((\<exists>v\<in>snd ` set (inputs t). endswith v ''.epw'') \<or> ''weather'' \<in> fst ` set (inputs t))"
  by (auto simp: check_inputs_def check_weather_def check_geometry_def check_scenario_config_def
        list_ex_iff)

lemma weather_gap_detected:
  assumes "st \<in> set (wf_steps wfl)" and "get_script_by_id p (ws_script_id st) = Some sc"
    and "inp \<in> set (sc_inputs sc)" and "si_required inp"
    and "str_in ''weather'' (lower (si_name inp))"
    and "''weather'' \<notin> fst ` set (inputs t)"
    and "\<forall>v\<in>snd ` set (inputs t). \<not> endswith v ''.epw''"
  shows "''weather_epw'' \<in> set (snd (check_inputs (required_inputs (resolve_scripts p wfl)) t))"
    and "compute_plan hord p t wfl = Inr pl \<Longrightarrow> ''weather_epw'' \<in> set (missing pl)"
    and "None \<notin> ws_description ` set (wf_steps wfl) \<Longrightarrow>
           \<exists>pl'. compute_plan hord p t wfl = Inr pl' \<and> ''weather_epw'' \<in> set (missing pl')"
proof -
  have "si_name inp \<in> fst ` set (required_inputs (resolve_scripts p wfl))"
    unfolding required_inputs_keys
    using resolved_script_mem [OF assms(1,2)] assms(3,4) by blast
  with assms(5) have "\<exists>r\<in>fst ` set (required_inputs (resolve_scripts p wfl)). str_in ''weather'' (lower r)"
    by blast
  with assms(6,7) show m: "''weather_epw'' \<in> set (snd (check_inputs (required_inputs (resolve_scripts p wfl)) t))"
    by (simp add: check_inputs_weather)
  show "compute_plan hord p t wfl = Inr pl \<Longrightarrow> ''weather_epw'' \<in> set (missing pl)"
    using m by (simp add: compute_plan_fields)
  show "None \<notin> ws_description ` set (wf_steps wfl) \<Longrightarrow>
           \<exists>pl'. compute_plan hord p t wfl = Inr pl' \<and> ''weather_epw'' \<in> set (missing pl')"
    using m compute_plan_ok [of hord p t wfl] by (auto simp: compute_plan_fields)
qed

text \<open>
  Claim C6 at a workflow whose step has no description (the field is optional and
  \<open>None\<close> by default). The task has a geometry file and no weather, the script of the
  step declares the required input \<open>weather_file\<close>, the workflow is the one selected,
  and the check of the inputs does put \<open>weather_epw\<close> on the list of missing inputs. Yet
  no plan comes out: joining the step descriptions raises \<open>TypeError\<close>, and the handler
  answers with a FAILURE of content type \<open>error\<close> that names no missing input.
\<close>

theorem undescribed_step_loses_plan:
  "find_best_workflow provider1 task0 = Some wf_undescribed
   \<and> ''weather_epw'' \<in> set (snd (check_inputs (required_inputs (resolve_scripts provider1 wf_undescribed)) task0))
   \<and> compute_plan (\<lambda>xs. xs) provider1 task0 wf_undescribed
       = Inl (Exception ''TypeError'' ''sequence item 0: expected str instance, NoneType found'')"
  by code_simp

text \<open>
  Claim C10: a step whose script the provider does not resolve leaves the dictionary of
  scripts, hence the required inputs and the result of the input checks, as they are
  without the step, and produces no step of the plan: the steps of the plan are those
  of the workflow whose script is resolved, in order, fewer than the workflow has. No
  error is raised for it: whether a plan comes out depends on the step descriptions
  alone.
\<close>

theorem unresolved_step_skipped:
  assumes "get_script_by_id p (ws_script_id st) = None"
    and "W = wfl\<lparr>wf_steps := pre @ st # post\<rparr>"
    and "W' = wfl\<lparr>wf_steps := pre @ post\<rparr>"
  shows "resolve_scripts p W = resolve_scripts p W'
    \<and> check_inputs (required_inputs (resolve_scripts p W)) t
        = check_inputs (required_inputs (resolve_scripts p W')) t
    \<and> make_plan_steps (resolve_scripts p W) t W = make_plan_steps (resolve_scripts p W') t W'
    \<and> (\<forall>pl. compute_plan hord p t W = Inr pl \<longrightarrow>
          plan pl = make_plan_steps (resolve_scripts p W') t W'
          \<and> missing pl = snd (check_inputs (required_inputs (resolve_scripts p W')) t)
          \<and> map script_id (plan pl)
              = filter (\<lambda>sid. get_script_by_id p sid \<noteq> None) (map ws_script_id (wf_steps W))
          \<and> ws_script_id st \<notin> script_id ` set (plan pl)
          \<and> length (plan pl) < length (wf_steps W))
    \<and> ((\<exists>pl. compute_plan hord p t W = Inr pl) \<longleftrightarrow> None \<notin> ws_description ` set (wf_steps W))"
proof -
  have rs: "resolve_scripts p W = resolve_scripts p W'"
    unfolding assms(2,3) by (rule resolve_scripts_skip [OF assms(1)])
  have steps: "make_plan_steps (resolve_scripts p W) t W = make_plan_steps (resolve_scripts p W') t W'"
    using assms(1) by (simp add: make_plan_steps_resolved assms(2,3))
  have ids: "map script_id (make_plan_steps (resolve_scripts p W) t W)
      = filter (\<lambda>sid. get_script_by_id p sid \<noteq> None) (map ws_script_id (wf_steps W))"
    by (simp only: make_plan_steps_resolved plan_step_ids)
  have notin: "ws_script_id st \<notin> script_id ` set (make_plan_steps (resolve_scripts p W) t W)"
  proof -
    have "ws_script_id st \<notin> set (map script_id (make_plan_steps (resolve_scripts p W) t W))"
      unfolding ids using assms(1) by simp
    then show ?thesis by simp
  qed
  have len: "length (make_plan_steps (resolve_scripts p W) t W) < length (wf_steps W)"
  proof -
    have "length (make_plan_steps (resolve_scripts p W) t W)
        = length (filter (\<lambda>sid. get_script_by_id p sid \<noteq> None) (map ws_script_id (wf_steps W)))"
      using ids by (metis length_map)
    also have "\<dots> < length (map ws_script_id (wf_steps W))"
      by (rule length_filter_less [where x = "ws_script_id st"]) (simp_all add: assms(1,2))
    finally show ?thesis by simp
  qed
  have pl: "\<forall>pl. compute_plan hord p t W = Inr pl \<longrightarrow>
          plan pl = make_plan_steps (resolve_scripts p W') t W'
          \<and> missing pl = snd (check_inputs (required_inputs (resolve_scripts p W')) t)
          \<and> map script_id (plan pl)
              = filter (\<lambda>sid. get_script_by_id p sid \<noteq> None) (map ws_script_id (wf_steps W))
          \<and> ws_script_id st \<notin> script_id ` set (plan pl)
          \<and> length (plan pl) < length (wf_steps W)"
  proof (intro allI impI)
    fix pl assume c: "compute_plan hord p t W = Inr pl"
    have a: "plan pl = make_plan_steps (resolve_scripts p W) t W"
      and b: "missing pl = snd (check_inputs (required_inputs (resolve_scripts p W)) t)"
      using compute_plan_fields [OF c] by simp_all
    show "plan pl = make_plan_steps (resolve_scripts p W') t W'
          \<and> missing pl = snd (check_inputs (required_inputs (resolve_scripts p W')) t)
          \<and> map script_id (plan pl)
              = filter (\<lambda>sid. get_script_by_id p sid \<noteq> None) (map ws_script_id (wf_steps W))
          \<and> ws_script_id st \<notin> script_id ` set (plan pl)
          \<and> length (plan pl) < length (wf_steps W)"
      unfolding a b using steps ids notin len by (simp add: rs)
  qed
  have ci: "check_inputs (required_inputs (resolve_scripts p W)) t
        = check_inputs (required_inputs (resolve_scripts p W')) t"
    by (simp add: rs)
  have ok: "(\<exists>pl. compute_plan hord p t W = Inr pl) \<longleftrightarrow> None \<notin> ws_description ` set (wf_steps W)"
    by (rule compute_plan_ok)
  show ?thesis
    by (intro conjI) (rule rs, rule ci, rule steps, rule pl, rule ok)
qed

theorem unresolved_step_skipped_witness:
  "get_script_by_id provider0 ''script-404'' = None
   \<and> length (wf_steps wf_cooling) = 2
   \<and> (\<exists>pl. compute_plan (\<lambda>xs. xs) provider0 task0 wf_cooling = Inr pl
            \<and> map script_id (plan pl) = [''script-001'']
            \<and> missing pl = [''weather_epw''])"
proof -
  define st where "st = \<lparr>ws_script_id = ''script-404'', ws_action = ''generate_report'',
                          ws_description = Some ''Generate report''\<rparr>"
  define pre where "pre = [\<lparr>ws_script_id = ''script-001'', ws_action = ''calculate_cooling_loads'',
                              ws_description = Some ''Calculate cooling loads''\<rparr>]"
  have u: "get_script_by_id provider0 (ws_script_id st) = None"
    by (simp add: st_def provider0_def)
  have W: "wf_cooling = wf_cooling\<lparr>wf_steps := pre @ st # []\<rparr>"
    by (simp add: wf_cooling_def st_def pre_def)
  have d: "None \<notin> ws_description ` set (wf_steps wf_cooling)"
    by (simp add: wf_cooling_def)
  have m: "snd (check_inputs (required_inputs (resolve_scripts provider0 (wf_cooling\<lparr>wf_steps := pre @ []\<rparr>))) task0)
         = [''weather_epw'']"
    unfolding pre_def by code_simp
  have f: "filter (\<lambda>sid. get_script_by_id provider0 sid \<noteq> None) (map ws_script_id (wf_steps wf_cooling))
         = [''script-001'']"
    by (simp add: wf_cooling_def provider0_def)
  from unresolved_step_skipped [OF u W refl, of task0 "\<lambda>xs. xs"] d
  obtain pl where c: "compute_plan (\<lambda>xs. xs) provider0 task0 wf_cooling = Inr pl" by blast
  with unresolved_step_skipped [OF u W refl, of task0 "\<lambda>xs. xs"]
  have "map script_id (plan pl)
          = filter (\<lambda>sid. get_script_by_id provider0 sid \<noteq> None) (map ws_script_id (wf_steps wf_cooling))"
    and "missing pl = snd (check_inputs (required_inputs (resolve_scripts provider0 (wf_cooling\<lparr>wf_steps := pre @ []\<rparr>))) task0)"
    by blast+
  with c m f u show ?thesis by (simp add: st_def wf_cooling_def)
qed

section \<open>The task handler\<close>

lemma find_best_mem:
  assumes "find_best_workflow p t = Some w"
  shows "w \<in> set (get_candidate_workflows p t)"
proof -
  have ne: "get_candidate_workflows p t \<noteq> []"
    using assms by (auto simp: find_best_workflow_def)
  from first_max_split [OF ne, of "calculate_workflow_score t"]
  obtain pre best post where
    d: "get_candidate_workflows p t = pre @ best # post"
    and a: "\<forall>x\<in>set pre. calculate_workflow_score t x < calculate_workflow_score t best"
    and b: "\<forall>x\<in>set post. calculate_workflow_score t x \<le> calculate_workflow_score t best"
    by blast
  from find_best_first_max [OF d a b] assms have "w = best" by simp
  then show ?thesis by (simp add: d)
qed

lemma find_best_None_iff:
  "find_best_workflow p t = None \<longleftrightarrow> get_candidate_workflows p t = []"
proof
  assume n: "find_best_workflow p t = None"
  show "get_candidate_workflows p t = []"
  proof (rule ccontr)
    assume ne: "get_candidate_workflows p t \<noteq> []"
    from first_max_split [OF ne, of "calculate_workflow_score t"]
    obtain pre best post where
      d: "get_candidate_workflows p t = pre @ best # post"
      and a: "\<forall>x\<in>set pre. calculate_workflow_score t x < calculate_workflow_score t best"
      and b: "\<forall>x\<in>set post. calculate_workflow_score t x \<le> calculate_workflow_score t best"
      by blast
    from find_best_first_max [OF d a b] n show False by simp
  qed
next
  assume "get_candidate_workflows p t = []"
  then show "find_best_workflow p t = None" by (simp add: find_best_workflow_def)
qed

lemma handle_task_effect:
  "handle_task hord p ag m w =
     (Inr (), snd (route (reply m (fst (task_reply hord p m)) (fst (snd (task_reply hord p m)))
                            (snd (snd (task_reply hord p m))) (Some (name ag)) (clock w)) w))"
  by (simp add: handle_task_def agent_reply_def split: prod.splits)

lemma task_reply_failed:
  "task_answer hord p (content m) = Inl e \<Longrightarrow>
   task_reply hord p m = (FAILURE, ''error'', [(''error'', PStr (''Failed to process task: '' @ exn_msg e))])"
  by (simp add: task_reply_def)

text \<open>
  Claim C1, as stated, knows three replies to a message of content type \<open>task\<close>. The
  \<open>except\<close> branch of the handler gives a fourth: a message whose content is not a
  task (here the empty dictionary, which lacks \<open>intent\<close> and \<open>raw_text\<close>) is answered
  with a FAILURE of content type \<open>error\<close> whose text starts with
  \<open>Failed to process task:\<close> and has not the form \<open>No workflow found for intent: ...\<close>.
\<close>

theorem task_reply_validation_counterexample:
  "task_reply (\<lambda>xs. xs) provider0 empty_task_msg
     = (FAILURE, ''error'', [(''error'', PStr (''Failed to process task: '' @ exn_msg validation_error))])
   \<and> (\<nexists>i. ''Failed to process task: '' @ exn_msg validation_error = ''No workflow found for intent: '' @ i)"
proof -
  have "task_reply (\<lambda>xs. xs) provider0 empty_task_msg
     = (FAILURE, ''error'', [(''error'', PStr (''Failed to process task: '' @ exn_msg validation_error))])"
    by (simp add: task_reply_def task_answer_def from_dict_def str_field_def empty_task_msg_def)
  then show ?thesis by simp
qed

text \<open>
  Claim C1, amended: the reply to a message of content type \<open>task\<close> has one of four
  shapes. When the content does not parse as a task, or computing the plan raises, a
  FAILURE of content type \<open>error\<close> with the text \<open>Failed to process task:\<close> and the
  exception. When the content parses and no workflow shares a tag with the task, a
  FAILURE of content type \<open>error\<close> with \<open>No workflow found for intent:\<close> and the
  intent. Otherwise a workflow among the candidates is selected; when the plan
  computed for it has missing inputs, a FAILURE of content type \<open>plan\<close> with \<open>reason\<close>,
  \<open>missing\<close> and the plan itself, and when it has none, an INFORM of content type
  \<open>plan\<close> with the plan, the workflow id and the workflow name.
\<close>

theorem task_reply_shapes:
  "(\<exists>e. from_dict (content m) = Inl e
        \<and> task_reply hord p m =
            (FAILURE, ''error'', [(''error'', PStr (''Failed to process task: '' @ exn_msg e))]))
   \<or> (\<exists>t. from_dict (content m) = Inr t
        \<and> ((get_candidate_workflows p t = []
             \<and> task_reply hord p m =
                 (FAILURE, ''error'', [(''error'', PStr (''No workflow found for intent: '' @ intent t))]))
           \<or> (\<exists>best. find_best_workflow p t = Some best
                 \<and> best \<in> set (get_candidate_workflows p t)
                 \<and> ((\<exists>e. compute_plan hord p t best = Inl e
                          \<and> task_reply hord p m =
                              (FAILURE, ''error'',
                               [(''error'', PStr (''Failed to process task: '' @ exn_msg e))]))
                    \<or> (\<exists>pl. compute_plan hord p t best = Inr pl \<and> missing pl \<noteq> []
                          \<and> task_reply hord p m =
                              (FAILURE, ''plan'',
                               [(''reason'', PStr (''Missing required inputs: '' @ join '', '' (missing pl))),
                                (''missing'', PList (map PStr (missing pl))),
                                (''plan'', plan_to_dict pl)]))
                    \<or> (\<exists>pl. compute_plan hord p t best = Inr pl \<and> missing pl = []
                          \<and> task_reply hord p m =
                              (INFORM, ''plan'',
                               [(''plan'', plan_to_dict pl),
                                (''workflow_id'', (case wf_id best of None \<Rightarrow> PNone | Some i \<Rightarrow> PStr i)),
                                (''workflow_name'', PStr (wf_name best))]))))))"
proof (cases "from_dict (content m)")
  case (Inl e)
  then have "task_reply hord p m =
      (FAILURE, ''error'', [(''error'', PStr (''Failed to process task: '' @ exn_msg e))])"
    by (simp add: task_reply_def task_answer_def)
  with Inl show ?thesis by blast
next
  case (Inr t)
  show ?thesis
  proof (cases "find_best_workflow p t")
    case None
    then have c: "get_candidate_workflows p t = []"
      by (simp add: find_best_None_iff)
    have "task_reply hord p m =
        (FAILURE, ''error'', [(''error'', PStr (''No workflow found for intent: '' @ intent t))])"
      using Inr None by (simp add: task_reply_def task_answer_def)
    with Inr c show ?thesis by blast
  next
    case (Some best)
    have mem: "best \<in> set (get_candidate_workflows p t)" by (rule find_best_mem [OF Some])
    show ?thesis
    proof (cases "compute_plan hord p t best")
      case (Inl e)
      have "task_reply hord p m =
          (FAILURE, ''error'', [(''error'', PStr (''Failed to process task: '' @ exn_msg e))])"
        using \<open>from_dict (content m) = Inr t\<close> Some Inl by (simp add: task_reply_def task_answer_def)
      with \<open>from_dict (content m) = Inr t\<close> Some mem Inl show ?thesis by blast
    next
      case (Inr pl)
      show ?thesis
      proof (cases "missing pl = []")
        case True
        have "task_reply hord p m =
            (INFORM, ''plan'',
             [(''plan'', plan_to_dict pl),
              (''workflow_id'', (case wf_id best of None \<Rightarrow> PNone | Some i \<Rightarrow> PStr i)),
              (''workflow_name'', PStr (wf_name best))])"
          using \<open>from_dict (content m) = Inr t\<close> Some Inr True
          by (simp add: task_reply_def task_answer_def)
        with \<open>from_dict (content m) = Inr t\<close> Some mem Inr True show ?thesis by blast
      next
        case False
        have "task_reply hord p m =
            (FAILURE, ''plan'',
             [(''reason'', PStr (''Missing required inputs: '' @ join '', '' (missing pl))),
              (''missing'', PList (map PStr (missing pl))),
              (''plan'', plan_to_dict pl)])"
          using \<open>from_dict (content m) = Inr t\<close> Some Inr False
          by (simp add: task_reply_def task_answer_def)
        with \<open>from_dict (content m) = Inr t\<close> Some mem Inr False show ?thesis by blast
      qed
    qed
  qed
qed


theorem task_reply_shapes_witness:
  "fst (task_reply (\<lambda>xs. xs) provider0 task_msg) = FAILURE
   \<and> fst (snd (task_reply (\<lambda>xs. xs) provider0 task_msg)) = ''plan''
   \<and> map_of (snd (snd (task_reply (\<lambda>xs. xs) provider0 task_msg))) ''missing''
       = Some (PList [PStr ''weather_epw''])
   \<and> map_of (snd (snd (task_reply (\<lambda>xs. xs) provider0 task_msg))) ''reason''
       = Some (PStr ''Missing required inputs: weather_epw'')"
proof -
  have fd: "from_dict (content task_msg) = Inr task0" by code_simp
  have fb: "find_best_workflow provider0 task0 = Some wf_cooling" by code_simp
  have cn: "get_candidate_workflows provider0 task0 \<noteq> []"
    using fb by (simp add: find_best_None_iff [symmetric])
  have "None \<notin> ws_description ` set (wf_steps wf_cooling)" by (simp add: wf_cooling_def)
  then obtain pl where cp: "compute_plan (\<lambda>xs. xs) provider0 task0 wf_cooling = Inr pl"
    using compute_plan_ok [of "\<lambda>xs. xs" provider0 task0 wf_cooling] by blast
  have "snd (check_inputs (required_inputs (resolve_scripts provider0 wf_cooling)) task0) = [''weather_epw'']"
    by code_simp
  then have mi: "missing pl = [''weather_epw'']"
    by (simp add: compute_plan_fields [OF cp])
  from task_reply_shapes [of task_msg "\<lambda>xs. xs" provider0] fd
  obtain t where t: "Inr task0 = (Inr t :: exn + task)"
    and d: "(get_candidate_workflows provider0 t = []
             \<and> task_reply (\<lambda>xs. xs) provider0 task_msg =
                 (FAILURE, ''error'', [(''error'', PStr (''No workflow found for intent: '' @ intent t))]))
           \<or> (\<exists>best. find_best_workflow provider0 t = Some best
                 \<and> best \<in> set (get_candidate_workflows provider0 t)
                 \<and> ((\<exists>e. compute_plan (\<lambda>xs. xs) provider0 t best = Inl e
                          \<and> task_reply (\<lambda>xs. xs) provider0 task_msg =
                              (FAILURE, ''error'',
                               [(''error'', PStr (''Failed to process task: '' @ exn_msg e))]))
                    \<or> (\<exists>pl. compute_plan (\<lambda>xs. xs) provider0 t best = Inr pl \<and> missing pl \<noteq> []
                          \<and> task_reply (\<lambda>xs. xs) provider0 task_msg =
                              (FAILURE, ''plan'',
                               [(''reason'', PStr (''Missing required inputs: '' @ join '', '' (missing pl))),
                                (''missing'', PList (map PStr (missing pl))),
                                (''plan'', plan_to_dict pl)]))
                    \<or> (\<exists>pl. compute_plan (\<lambda>xs. xs) provider0 t best = Inr pl \<and> missing pl = []
                          \<and> task_reply (\<lambda>xs. xs) provider0 task_msg =
                              (INFORM, ''plan'',
                               [(''plan'', plan_to_dict pl),
                                (''workflow_id'', (case wf_id best of None \<Rightarrow> PNone | Some i \<Rightarrow> PStr i)),
                                (''workflow_name'', PStr (wf_name best))]))))"
    by auto
  from t have t0: "t = task0" by simp
  from d cn fb cp mi have
    "task_reply (\<lambda>xs. xs) provider0 task_msg =
       (FAILURE, ''plan'',
        [(''reason'', PStr (''Missing required inputs: '' @ join '', '' (missing pl))),
         (''missing'', PList (map PStr (missing pl))),
         (''plan'', plan_to_dict pl)])"
    unfolding t0 by auto
  then show ?thesis by (simp add: mi)
qed

section \<open>Repeated resolution\<close>

lemma candidates_same:
  "get_all_workflows p = get_all_workflows p' \<Longrightarrow>
   get_candidate_workflows p t = get_candidate_workflows p' t"
  by (simp add: get_candidate_workflows_def)

lemma find_best_same:
  "get_all_workflows p = get_all_workflows p' \<Longrightarrow> find_best_workflow p t = find_best_workflow p' t"
  by (simp add: find_best_workflow_def candidates_same [of p p'])

lemma resolve_scripts_same:
  assumes "\<forall>st\<in>set (wf_steps wfl). get_script_by_id p (ws_script_id st) = get_script_by_id p' (ws_script_id st)"
  shows "resolve_scripts p wfl = resolve_scripts p' wfl"
  unfolding resolve_scripts_def
  by (rule fold_cong) (use assms in auto)

lemma explanation_error_any_order:
  "generate_explanation hord t wfl av mi = Inl e \<longleftrightarrow> generate_explanation hord' t wfl av mi = Inl e"
  by (simp add: generate_explanation_def Let_def split: sum.splits)

lemma explanation_same_order:
  "av = [] \<or> hord av = hord' av \<Longrightarrow>
   generate_explanation hord t wfl av mi = generate_explanation hord' t wfl av mi"
  by (auto simp: generate_explanation_def Let_def split: sum.splits)

lemma explanation_around_available:
  "\<exists>pre suf. \<forall>h s. generate_explanation h t wfl av mi = Inr s \<longrightarrow>
      s = pre @ (if av = [] then [] else '' Available inputs: '' @ join '', '' (h av) @ ''.'') @ suf"
proof (cases "join_optional '', '' (map ws_description (wf_steps wfl))")
  case (Inl e)
  then have "\<forall>h s. generate_explanation h t wfl av mi \<noteq> Inr s"
    by (simp add: generate_explanation_def Let_def)
  then show ?thesis by simp
next
  case (Inr d)
  define pre where "pre =
     (case scope t of
        None \<Rightarrow> ''Selected workflow '' @ [CHR 0x27] @ wf_name wfl @ [CHR 0x27]
               @ '' because it matches your intent to '' @ intent t @ ''.''
      | Some sc \<Rightarrow> (''Selected workflow '' @ [CHR 0x27] @ wf_name wfl @ [CHR 0x27]
               @ '' because it matches your intent to '' @ intent t @ ''.'')
               @ '' This workflow is suitable for '' @ scope_str sc @ ''-level analysis.'')
     @ '' The workflow consists of '' @ str_nat (length (wf_steps wfl)) @ '' steps: '' @ d @ ''.''"
  define suf where "suf =
     (if mi \<noteq> [] then '' Missing required inputs: '' @ join '', '' mi @ ''.'' else [])"
  have "\<forall>h s. generate_explanation h t wfl av mi = Inr s \<longrightarrow>
      s = pre @ (if av = [] then [] else '' Available inputs: '' @ join '', '' (h av) @ ''.'') @ suf"
    using Inr by (cases "scope t") (simp_all add: generate_explanation_def Let_def pre_def suf_def)
  then show ?thesis by blast
qed

text \<open>
  Claim C8, as stated, promises the same explain string. The available inputs are kept
  in a Python set and joined in the order of its iteration, which follows the string
  hashes of the process and so may differ between two runs. For the task with a
  geometry and a weather file, on the same snapshot, one order lists
  \<open>weather_epw, geometry\<close> and the other \<open>geometry, weather_epw\<close>: two plans that differ.
\<close>

theorem explain_follows_set_order_counterexample:
  "map_sum exn_msg explain (compute_plan (\<lambda>xs. xs) provider0 task1 wf_cooling)
     = Inr (''Selected workflow '' @ [CHR 0x27] @ ''estimate_cooling_demand'' @ [CHR 0x27]
            @ '' because it matches your intent to cooling demand.''
            @ '' This workflow is suitable for district-level analysis.''
            @ '' The workflow consists of 2 steps: Calculate cooling loads, Generate report.''
            @ '' Available inputs: weather_epw, geometry.'')
   \<and> map_sum exn_msg explain (compute_plan rev provider0 task1 wf_cooling)
     = Inr (''Selected workflow '' @ [CHR 0x27] @ ''estimate_cooling_demand'' @ [CHR 0x27]
            @ '' because it matches your intent to cooling demand.''
            @ '' This workflow is suitable for district-level analysis.''
            @ '' The workflow consists of 2 steps: Calculate cooling loads, Generate report.''
            @ '' Available inputs: geometry, weather_epw.'')
   \<and> compute_plan (\<lambda>xs. xs) provider0 task1 wf_cooling \<noteq> compute_plan rev provider0 task1 wf_cooling"
proof -
  have a: "map_sum exn_msg explain (compute_plan (\<lambda>xs. xs) provider0 task1 wf_cooling)
     = Inr (''Selected workflow '' @ [CHR 0x27] @ ''estimate_cooling_demand'' @ [CHR 0x27]
            @ '' because it matches your intent to cooling demand.''
            @ '' This workflow is suitable for district-level analysis.''
            @ '' The workflow consists of 2 steps: Calculate cooling loads, Generate report.''
            @ '' Available inputs: weather_epw, geometry.'')"
    by code_simp
  have b: "map_sum exn_msg explain (compute_plan rev provider0 task1 wf_cooling)
     = Inr (''Selected workflow '' @ [CHR 0x27] @ ''estimate_cooling_demand'' @ [CHR 0x27]
            @ '' because it matches your intent to cooling demand.''
            @ '' This workflow is suitable for district-level analysis.''
            @ '' The workflow consists of 2 steps: Calculate cooling loads, Generate report.''
            @ '' Available inputs: geometry, weather_epw.'')"
    by code_simp
  have "map_sum exn_msg explain (compute_plan (\<lambda>xs. xs) provider0 task1 wf_cooling)
      \<noteq> map_sum exn_msg explain (compute_plan rev provider0 task1 wf_cooling)"
    unfolding a b by simp
  then have "compute_plan (\<lambda>xs. xs) provider0 task1 wf_cooling \<noteq> compute_plan rev provider0 task1 wf_cooling"
    by auto
  with a b show ?thesis by blast
qed

text \<open>
  Claim C8, amended: two resolutions of a task that see the same answers of the
  provider (the list of workflows in its order, and the scripts of the steps of these
  workflows) select the same workflow, and for every workflow they raise the same
  exception or yield plans with the same steps and arguments, the same assumptions and
  the same missing inputs, whatever the order in which each of them iterates the set of
  available inputs. The two explain strings agree except for the names listed after
  \<open>Available inputs:\<close>, which each resolution lists in its own order; when no input is
  available, or the two orders of the available inputs agree (as within one process),
  the two outcomes are equal.
\<close>

theorem resolution_up_to_set_order:
  assumes wfs: "get_all_workflows p = get_all_workflows p'"
    and scs: "\<forall>wfl\<in>set (get_all_workflows p). \<forall>st\<in>set (wf_steps wfl).
                get_script_by_id p (ws_script_id st) = get_script_by_id p' (ws_script_id st)"
  shows "find_best_workflow p t = find_best_workflow p' t
    \<and> (\<forall>wfl\<in>set (get_all_workflows p).
          (\<forall>e. compute_plan hord p t wfl = Inl e \<longleftrightarrow> compute_plan hord' p' t wfl = Inl e)
          \<and> (\<forall>pl pl'. compute_plan hord p t wfl = Inr pl \<and> compute_plan hord' p' t wfl = Inr pl' \<longrightarrow>
                plan pl = plan pl' \<and> assumptions pl = assumptions pl' \<and> missing pl = missing pl'
                \<and> (\<exists>pre suf av.
                      av = fst (check_inputs (required_inputs (resolve_scripts p wfl)) t)
                      \<and> explain pl =
                          pre @ (if av = [] then []
                                 else '' Available inputs: '' @ join '', '' (hord av) @ ''.'') @ suf
                      \<and> explain pl' =
                          pre @ (if av = [] then []
                                 else '' Available inputs: '' @ join '', '' (hord' av) @ ''.'') @ suf))
          \<and> (fst (check_inputs (required_inputs (resolve_scripts p wfl)) t) = []
               \<or> hord (fst (check_inputs (required_inputs (resolve_scripts p wfl)) t))
                  = hord' (fst (check_inputs (required_inputs (resolve_scripts p wfl)) t))
              \<longrightarrow> compute_plan hord p t wfl = compute_plan hord' p' t wfl))"
proof -
  have fb: "find_best_workflow p t = find_best_workflow p' t"
    by (rule find_best_same [OF wfs])
  have per: "(\<forall>e. compute_plan hord p t wfl = Inl e \<longleftrightarrow> compute_plan hord' p' t wfl = Inl e)
          \<and> (\<forall>pl pl'. compute_plan hord p t wfl = Inr pl \<and> compute_plan hord' p' t wfl = Inr pl' \<longrightarrow>
                plan pl = plan pl' \<and> assumptions pl = assumptions pl' \<and> missing pl = missing pl'
                \<and> (\<exists>pre suf av.
                      av = fst (check_inputs (required_inputs (resolve_scripts p wfl)) t)
                      \<and> explain pl =
                          pre @ (if av = [] then []
                                 else '' Available inputs: '' @ join '', '' (hord av) @ ''.'') @ suf
                      \<and> explain pl' =
                          pre @ (if av = [] then []
                                 else '' Available inputs: '' @ join '', '' (hord' av) @ ''.'') @ suf))
          \<and> (fst (check_inputs (required_inputs (resolve_scripts p wfl)) t) = []
               \<or> hord (fst (check_inputs (required_inputs (resolve_scripts p wfl)) t))
                  = hord' (fst (check_inputs (required_inputs (resolve_scripts p wfl)) t))
              \<longrightarrow> compute_plan hord p t wfl = compute_plan hord' p' t wfl)"
    if mem: "wfl \<in> set (get_all_workflows p)" for wfl
  proof -
    have rs: "resolve_scripts p' wfl = resolve_scripts p wfl"
      using scs mem by (intro resolve_scripts_same [symmetric]) blast
    define av where "av = fst (check_inputs (required_inputs (resolve_scripts p wfl)) t)"
    define mi where "mi = snd (check_inputs (required_inputs (resolve_scripts p wfl)) t)"
    have cp: "compute_plan h q t wfl =
        (case generate_explanation h t wfl av mi of
           Inl e \<Rightarrow> Inl e
         | Inr explanation \<Rightarrow>
             Inr \<lparr>plan = make_plan_steps (resolve_scripts p wfl) t wfl, explain = explanation,
                  assumptions = generate_assumptions t wfl, missing = mi\<rparr>)"
      if "resolve_scripts q wfl = resolve_scripts p wfl" for h q
      unfolding av_def mi_def compute_plan_def Let_def that by (rule refl)
    have c1: "compute_plan hord p t wfl =
        (case generate_explanation hord t wfl av mi of
           Inl e \<Rightarrow> Inl e
         | Inr explanation \<Rightarrow>
             Inr \<lparr>plan = make_plan_steps (resolve_scripts p wfl) t wfl, explain = explanation,
                  assumptions = generate_assumptions t wfl, missing = mi\<rparr>)"
      by (rule cp) simp
    have c2: "compute_plan hord' p' t wfl =
        (case generate_explanation hord' t wfl av mi of
           Inl e \<Rightarrow> Inl e
         | Inr explanation \<Rightarrow>
             Inr \<lparr>plan = make_plan_steps (resolve_scripts p wfl) t wfl, explain = explanation,
                  assumptions = generate_assumptions t wfl, missing = mi\<rparr>)"
      by (rule cp) (rule rs)
    have err: "\<forall>e. compute_plan hord p t wfl = Inl e \<longleftrightarrow> compute_plan hord' p' t wfl = Inl e"
    proof (intro allI)
      fix e
      have ee: "generate_explanation hord t wfl av mi = Inl e
          \<longleftrightarrow> generate_explanation hord' t wfl av mi = Inl e"
        by (rule explanation_error_any_order)
      show "compute_plan hord p t wfl = Inl e \<longleftrightarrow> compute_plan hord' p' t wfl = Inl e"
        unfolding c1 c2 using ee
        by (cases "generate_explanation hord t wfl av mi"; cases "generate_explanation hord' t wfl av mi")
           simp_all
    qed
    from explanation_around_available [of t wfl av mi]
    obtain pre suf where around: "\<forall>h s. generate_explanation h t wfl av mi = Inr s \<longrightarrow>
      s = pre @ (if av = [] then [] else '' Available inputs: '' @ join '', '' (h av) @ ''.'') @ suf"
      by blast
    have both: "\<forall>pl pl'. compute_plan hord p t wfl = Inr pl \<and> compute_plan hord' p' t wfl = Inr pl' \<longrightarrow>
                plan pl = plan pl' \<and> assumptions pl = assumptions pl' \<and> missing pl = missing pl'
                \<and> (\<exists>pre suf av'.
                      av' = fst (check_inputs (required_inputs (resolve_scripts p wfl)) t)
                      \<and> explain pl =
                          pre @ (if av' = [] then []
                                 else '' Available inputs: '' @ join '', '' (hord av') @ ''.'') @ suf
                      \<and> explain pl' =
                          pre @ (if av' = [] then []
                                 else '' Available inputs: '' @ join '', '' (hord' av') @ ''.'') @ suf)"
    proof (intro allI impI)
      fix pl pl'
      assume h: "compute_plan hord p t wfl = Inr pl \<and> compute_plan hord' p' t wfl = Inr pl'"
      from h obtain s where s: "generate_explanation hord t wfl av mi = Inr s"
        and pl: "pl = \<lparr>plan = make_plan_steps (resolve_scripts p wfl) t wfl, explain = s,
                  assumptions = generate_assumptions t wfl, missing = mi\<rparr>"
        by (auto simp: c1 split: sum.splits)
      from h obtain s' where s': "generate_explanation hord' t wfl av mi = Inr s'"
        and pl': "pl' = \<lparr>plan = make_plan_steps (resolve_scripts p wfl) t wfl, explain = s',
                  assumptions = generate_assumptions t wfl, missing = mi\<rparr>"
        by (auto simp: c2 split: sum.splits)
      have e1: "explain pl = pre @ (if av = [] then [] else '' Available inputs: '' @ join '', '' (hord av) @ ''.'') @ suf"
        using around s by (simp add: pl)
      have e2: "explain pl' = pre @ (if av = [] then [] else '' Available inputs: '' @ join '', '' (hord' av) @ ''.'') @ suf"
        using around s' by (simp add: pl')
      have "\<exists>pre suf av'.
                      av' = fst (check_inputs (required_inputs (resolve_scripts p wfl)) t)
                      \<and> explain pl =
                          pre @ (if av' = [] then []
                                 else '' Available inputs: '' @ join '', '' (hord av') @ ''.'') @ suf
                      \<and> explain pl' =
                          pre @ (if av' = [] then []
                                 else '' Available inputs: '' @ join '', '' (hord' av') @ ''.'') @ suf"
        using e1 e2 av_def by blast
      moreover have "plan pl = plan pl' \<and> assumptions pl = assumptions pl' \<and> missing pl = missing pl'"
        by (simp add: pl pl')
      ultimately show "plan pl = plan pl' \<and> assumptions pl = assumptions pl' \<and> missing pl = missing pl'
                \<and> (\<exists>pre suf av'.
                      av' = fst (check_inputs (required_inputs (resolve_scripts p wfl)) t)
                      \<and> explain pl =
                          pre @ (if av' = [] then []
                                 else '' Available inputs: '' @ join '', '' (hord av') @ ''.'') @ suf
                      \<and> explain pl' =
                          pre @ (if av' = [] then []
                                 else '' Available inputs: '' @ join '', '' (hord' av') @ ''.'') @ suf)"
        by blast
    qed
    have same: "av = [] \<or> hord av = hord' av \<longrightarrow> compute_plan hord p t wfl = compute_plan hord' p' t wfl"
      using explanation_same_order [of av hord hord' t wfl mi] by (auto simp: c1 c2)
    from err both same show ?thesis unfolding av_def by blast
  qed
  from fb per show ?thesis by blast
qed

theorem resolution_up_to_set_order_witness:
  "get_script_by_id provider0 ''script-999'' \<noteq> get_script_by_id provider2 ''script-999''
   \<and> find_best_workflow provider0 task1 = find_best_workflow provider2 task1
   \<and> (\<exists>pl pl'. compute_plan (\<lambda>xs. xs) provider0 task1 wf_cooling = Inr pl
          \<and> compute_plan rev provider2 task1 wf_cooling = Inr pl'
          \<and> plan pl = plan pl' \<and> assumptions pl = assumptions pl' \<and> missing pl = missing pl')
   \<and> compute_plan (\<lambda>xs. xs) provider0 task0 wf_cooling = compute_plan rev provider2 task0 wf_cooling"
proof -
  have d: "get_script_by_id provider0 ''script-999'' \<noteq> get_script_by_id provider2 ''script-999''"
    by (simp add: provider0_def provider2_def)
  have wfs: "get_all_workflows provider0 = get_all_workflows provider2"
    by (simp add: provider0_def provider2_def)
  have scs: "\<forall>wfl\<in>set (get_all_workflows provider0). \<forall>st\<in>set (wf_steps wfl).
      get_script_by_id provider0 (ws_script_id st) = get_script_by_id provider2 (ws_script_id st)"
    by (simp add: provider0_def provider2_def wf_network_def wf_cooling_def)
  have mem: "wf_cooling \<in> set (get_all_workflows provider0)"
    by (simp add: provider0_def)
  have ds: "None \<notin> ws_description ` set (wf_steps wf_cooling)" by (simp add: wf_cooling_def)
  from ds obtain pl where pl: "compute_plan (\<lambda>xs. xs) provider0 task1 wf_cooling = Inr pl"
    using compute_plan_ok [of "\<lambda>xs. xs" provider0 task1 wf_cooling] by blast
  from ds obtain pl' where pl': "compute_plan rev provider2 task1 wf_cooling = Inr pl'"
    using compute_plan_ok [of rev provider2 task1 wf_cooling] by blast
  have one: "rev (fst (check_inputs (required_inputs (resolve_scripts provider0 wf_cooling)) task0))
      = fst (check_inputs (required_inputs (resolve_scripts provider0 wf_cooling)) task0)"
    by code_simp
  note thm1 = resolution_up_to_set_order [OF wfs scs, of task1 "\<lambda>xs. xs" rev]
  note thm0 = resolution_up_to_set_order [OF wfs scs, of task0 "\<lambda>xs. xs" rev]
  from thm1 have fb: "find_best_workflow provider0 task1 = find_best_workflow provider2 task1"
    by blast
  from thm1 mem pl pl' have eq: "plan pl = plan pl' \<and> assumptions pl = assumptions pl' \<and> missing pl = missing pl'"
    by blast
  from thm0 mem one have same: "compute_plan (\<lambda>xs. xs) provider0 task0 wf_cooling = compute_plan rev provider2 task0 wf_cooling"
    by simp
  from d fb pl pl' eq same show ?thesis by blast
qed

end
